theory Spec2Isabelle
  imports Complex_Main "HOL-Library.AList"
begin

section \<open>Values shared by the components\<close>

text \<open>
  A JavaScript \<open>number\<close> is a double. A finite double is modelled as the rational it
  denotes; \<open>NaN\<close> and the infinities are not values of the model, and the places where the
  program can produce them are written out. Objects of the driver (pages, element
  handles, timers) are identities.
\<close>

type_synonym number = rat
type_synonym Page = nat
type_synonym ElementHandle = nat
type_synonym Timeout = nat

subsection \<open>Arithmetic on numbers\<close>

text \<open>
  The sum, difference, product and quotient of two numbers is the double nearest to the
  exact result, a tie going to the even significand. \<open>binade x\<close> is the exponent of the
  power of two at or below \<open>\<bar>x\<bar>\<close>, taken among the exponents of the normal doubles, and
  the least of them for a smaller \<open>x\<close> (the subnormal doubles have the spacing of that
  binade); the doubles around \<open>x\<close> are the multiples of \<open>2 powi (binade x - 52)\<close>. A
  result of magnitude \<open>2 powi 1024\<close> or more is an infinity in the program and outside
  the model.
\<close>

definition round_half_even :: "rat \<Rightarrow> int" where
  "round_half_even x =
     (let f = \<lfloor>x\<rfloor>; d = x - of_int f
      in if d < 1 / 2 then f else if 1 / 2 < d then f + 1 else if even f then f else f + 1)"

definition exponents :: "int list" where
  "exponents = [-1022..1023]"

definition binade :: "rat \<Rightarrow> int" where
  "binade x =
     (case find (\<lambda>e. 2 powi e \<le> \<bar>x\<bar> \<and> \<bar>x\<bar> < 2 powi (e + 1)) exponents of
        Some e \<Rightarrow> e
      | None \<Rightarrow> -1022)"

definition binary64 :: "rat \<Rightarrow> number" where
  "binary64 x = (let u = 2 powi (binade x - 52) in of_int (round_half_even (x / u)) * u)"

definition Number_add :: "number \<Rightarrow> number \<Rightarrow> number" where
  "Number_add a b = binary64 (a + b)"

definition Number_sub :: "number \<Rightarrow> number \<Rightarrow> number" where
  "Number_sub a b = binary64 (a - b)"

definition Number_mul :: "number \<Rightarrow> number \<Rightarrow> number" where
  "Number_mul a b = binary64 (a * b)"

definition Number_div :: "number \<Rightarrow> number \<Rightarrow> number" where
  "Number_div a b = binary64 (a / b)"

subsection \<open>Errors and promises\<close>

datatype error = TypeError | Error string

text \<open>
  The settled or unsettled state of a promise that the caller awaits. \<open>Pending\<close> is a
  promise that has not settled: the caller does not continue.
\<close>

datatype 'a promise = Resolved 'a | Rejected error | Pending

section \<open>PagePool (pagePool.ts)\<close>

datatype status = Idle | Busy

record PageInfo =
  page :: Page
  status :: status
  lastUsed :: nat
  timer :: "Timeout option"

text \<open>
  \<open>pool\<close> is the map from slot id to \<open>PageInfo\<close> in insertion order (the order in which
  \<open>entries()\<close> iterates); \<open>Map.set\<close> is \<open>AList.update\<close> (an existing key keeps its
  place), \<open>Map.get\<close> is \<open>map_of\<close>, \<open>Map.delete\<close> is \<open>AList.delete\<close>.
  \<open>timers\<close> holds the timeouts of the runtime that are armed (set and neither cleared
  nor fired), each with the slot id its callback closes over; \<open>next_timer\<close> is the
  identity of the next object \<open>setTimeout\<close> returns.
\<close>

record PagePool =
  pool :: "(string \<times> PageInfo) list"
  maxSize :: nat
  idleTimeout :: nat
  timers :: "(Timeout \<times> string) list"
  next_timer :: Timeout

subsection \<open>The code between two awaits\<close>

definition clearTimeout :: "Timeout \<Rightarrow> PagePool \<Rightarrow> PagePool" where
  "clearTimeout h s = s\<lparr>timers := AList.delete h (timers s)\<rparr>"

text \<open>
  \<open>createNewPage\<close> from the moment its \<open>await this.render.browser.newPage()\<close> has
  settled: \<open>np\<close> is what it settled to, \<open>i\<close> what \<open>generateId()\<close> returns and \<open>now\<close> what
  \<open>Date.now()\<close> returns. Before that moment the call has done nothing to the pool.
\<close>

definition createNewPage ::
  "error + Page \<Rightarrow> string \<Rightarrow> nat \<Rightarrow> PagePool \<Rightarrow> error + (string \<times> PagePool)" where
  "createNewPage np i now s =
     (case np of
        Inl e \<Rightarrow> Inl e
      | Inr p \<Rightarrow>
          Inr (i, s\<lparr>pool := AList.update i
                 \<lparr>page = p, status = Idle, lastUsed = now, timer = None\<rparr> (pool s)\<rparr>))"

definition startIdleTimer :: "string \<Rightarrow> PagePool \<Rightarrow> PagePool" where
  "startIdleTimer i s =
     (case map_of (pool s) i of
        None \<Rightarrow> s
      | Some pageInfo \<Rightarrow>
          let s1 = (case timer pageInfo of Some h \<Rightarrow> clearTimeout h s | None \<Rightarrow> s);
              h' = next_timer s1
          in s1\<lparr>pool := AList.update i (pageInfo\<lparr>timer := Some h'\<rparr>) (pool s1),
                timers := timers s1 @ [(h', i)],
                next_timer := Suc h'\<rparr>)"

text \<open>
  What \<open>createPage\<close> and the second branch of \<open>acquirePage\<close> do when their
  \<open>await this.createNewPage()\<close> resumes:
  \<open>const info = this.pool.get(id)!; info.status = 'busy'; return info.page\<close>.
\<close>

definition mark_busy :: "string \<Rightarrow> PagePool \<Rightarrow> (error + Page) \<times> PagePool" where
  "mark_busy i s =
     (case map_of (pool s) i of
        None \<Rightarrow> (Inl TypeError, s)
      | Some info \<Rightarrow>
          (Inr (page info), s\<lparr>pool := AList.update i (info\<lparr>status := Busy\<rparr>) (pool s)\<rparr>))"

text \<open>
  The loop of \<open>acquirePage\<close> (and of its polling callback): the first idle entry in
  iteration order becomes busy and its timeout, if it has one, is cleared.
\<close>

definition take_idle :: "nat \<Rightarrow> PagePool \<Rightarrow> (Page \<times> PagePool) option" where
  "take_idle now s =
     (case find (\<lambda>(k, info). status info = Idle) (pool s) of
        None \<Rightarrow> None
      | Some (k, info) \<Rightarrow>
          let s1 = s\<lparr>pool := AList.update k (info\<lparr>status := Busy, lastUsed := now\<rparr>) (pool s)\<rparr>
          in Some (page info,
                   case timer info of Some h \<Rightarrow> clearTimeout h s1 | None \<Rightarrow> s1))"

text \<open>\<open>releasePage\<close> has no await: the whole call is one step.\<close>

definition releasePage :: "Page \<Rightarrow> nat \<Rightarrow> PagePool \<Rightarrow> PagePool" where
  "releasePage p now s =
     (case find (\<lambda>(k, info). page info = p) (pool s) of
        None \<Rightarrow> s
      | Some (k, info) \<Rightarrow>
          startIdleTimer k
            (s\<lparr>pool := AList.update k (info\<lparr>status := Idle, lastUsed := now\<rparr>) (pool s)\<rparr>))"

subsection \<open>The steps of a pool\<close>

text \<open>
  What is suspended at an await of the pool's code and will run when the awaited promise
  settles: a \<open>createNewPage\<close> waiting for \<open>browser.newPage()\<close>, started by the
  constructor's \<open>initFirstPage\<close>, by \<open>acquirePage\<close> or by \<open>createPage\<close>; an
  \<open>acquirePage\<close> or \<open>createPage\<close> waiting for its \<open>createNewPage\<close> to return the slot
  id; the polling interval of an \<open>acquirePage\<close> that found the pool full; a timer
  callback or a \<open>removePage\<close> waiting for \<open>page.close()\<close> before its \<open>pool.delete(id)\<close>.
\<close>

datatype purpose = First | ForAcquire | ForCreate

datatype continuation =
    Creating purpose
  | Marking string
  | Polling
  | Closing string

type_synonym pool_conf = "PagePool \<times> continuation list"

text \<open>\<open>acquirePage\<close> from its call to its first await, or to its end if it finds an idle slot.\<close>

definition acquirePage_call :: "nat \<Rightarrow> pool_conf \<Rightarrow> pool_conf" where
  "acquirePage_call now c =
     (case c of (s, cs) \<Rightarrow>
        (case take_idle now s of
           Some (p, s') \<Rightarrow> (s', cs)
         | None \<Rightarrow>
             if length (pool s) < maxSize s then (s, cs @ [Creating ForAcquire])
             else (s, cs @ [Polling])))"

definition createPage_call :: "pool_conf \<Rightarrow> pool_conf" where
  "createPage_call c = (case c of (s, cs) \<Rightarrow> (s, cs @ [Creating ForCreate]))"

text \<open>
  A \<open>browser.newPage()\<close> settles and the \<open>createNewPage\<close> that waits for it runs to its
  end; the caller that awaits it, if there is one, is next to resume.
\<close>

definition newPage_settles ::
  "purpose \<Rightarrow> error + Page \<Rightarrow> string \<Rightarrow> nat \<Rightarrow> pool_conf \<Rightarrow> pool_conf" where
  "newPage_settles pu np i now c =
     (case c of (s, cs) \<Rightarrow>
        if Creating pu \<in> set cs then
          (case createNewPage np i now s of
             Inl e \<Rightarrow> (s, remove1 (Creating pu) cs)
           | Inr (i', s') \<Rightarrow>
               (s', remove1 (Creating pu) cs @ (if pu = First then [] else [Marking i'])))
        else c)"

definition createNewPage_returns :: "string \<Rightarrow> pool_conf \<Rightarrow> pool_conf" where
  "createNewPage_returns i c =
     (case c of (s, cs) \<Rightarrow>
        if Marking i \<in> set cs then (snd (mark_busy i s), remove1 (Marking i) cs) else c)"

text \<open>One run of the \<open>setInterval\<close> callback of a pending \<open>acquirePage\<close>.\<close>

definition acquirePage_poll :: "nat \<Rightarrow> pool_conf \<Rightarrow> pool_conf" where
  "acquirePage_poll now c =
     (case c of (s, cs) \<Rightarrow>
        if Polling \<in> set cs then
          (case take_idle now s of
             Some (p, s') \<Rightarrow> (s', remove1 Polling cs)
           | None \<Rightarrow> c)
        else c)"

text \<open>\<open>removePage\<close> from its call to its \<open>await info.page.close()\<close>.\<close>

definition removePage_call :: "Page \<Rightarrow> pool_conf \<Rightarrow> pool_conf" where
  "removePage_call p c =
     (case c of (s, cs) \<Rightarrow>
        (case find (\<lambda>(k, info). page info = p) (pool s) of
           None \<Rightarrow> c
         | Some (k, info) \<Rightarrow>
             ((case timer info of Some h \<Rightarrow> clearTimeout h s | None \<Rightarrow> s), cs @ [Closing k])))"

text \<open>
  The runtime fires the armed timeout \<open>h\<close>: it is no longer armed and the callback of
  \<open>startIdleTimer\<close> runs to its \<open>await info.page.close()\<close>.
\<close>

definition timeout_fires :: "Timeout \<Rightarrow> pool_conf \<Rightarrow> pool_conf" where
  "timeout_fires h c =
     (case c of (s, cs) \<Rightarrow>
        (case map_of (timers s) h of
           None \<Rightarrow> c
         | Some i \<Rightarrow>
             (case map_of (pool s) i of
                None \<Rightarrow> (clearTimeout h s, cs)
              | Some info \<Rightarrow>
                  if status info = Idle then (clearTimeout h s, cs @ [Closing i])
                  else (clearTimeout h s, cs))))"

text \<open>A \<open>page.close()\<close> settles and the \<open>pool.delete(id)\<close> that waits for it runs.\<close>

definition close_settles :: "string \<Rightarrow> pool_conf \<Rightarrow> pool_conf" where
  "close_settles k c =
     (case c of (s, cs) \<Rightarrow>
        if Closing k \<in> set cs then (s\<lparr>pool := AList.delete k (pool s)\<rparr>, remove1 (Closing k) cs)
        else c)"

datatype pool_op =
    AcquirePage_call nat
  | AcquirePage_poll nat
  | CreatePage_call
  | NewPage_settles purpose "error + Page" string nat
  | CreateNewPage_returns string
  | ReleasePage Page nat
  | RemovePage_call Page
  | Timeout_fires Timeout
  | Close_settles string

fun pool_step :: "pool_op \<Rightarrow> pool_conf \<Rightarrow> pool_conf" where
  "pool_step (AcquirePage_call now) c = acquirePage_call now c"
| "pool_step (AcquirePage_poll now) c = acquirePage_poll now c"
| "pool_step CreatePage_call c = createPage_call c"
| "pool_step (NewPage_settles pu np i now) c = newPage_settles pu np i now c"
| "pool_step (CreateNewPage_returns i) c = createNewPage_returns i c"
| "pool_step (ReleasePage p now) c = (releasePage p now (fst c), snd c)"
| "pool_step (RemovePage_call p) c = removePage_call p c"
| "pool_step (Timeout_fires h) c = timeout_fires h c"
| "pool_step (Close_settles k) c = close_settles k c"

definition pool_run :: "pool_op list \<Rightarrow> pool_conf \<Rightarrow> pool_conf" where
  "pool_run ops c = fold pool_step ops c"

text \<open>
  The pool when its constructor returns: the field initialisers, and \<open>initFirstPage\<close>
  suspended in its \<open>createNewPage\<close>.
\<close>

definition PagePool_fields :: PagePool where
  "PagePool_fields =
     \<lparr>pool = [], maxSize = 10, idleTimeout = 60000, timers = [], next_timer = 0\<rparr>"

definition PagePool_new :: pool_conf where
  "PagePool_new = (PagePool_fields, [Creating First])"

subsection \<open>A call taken alone\<close>

text \<open>
  \<open>createPage\<close>, \<open>acquirePage\<close> and \<open>removePage\<close> from the call to the settlement of the
  promise they return, when no other step of the pool runs in between: \<open>np\<close>, \<open>i\<close> and
  \<open>now\<close> are what \<open>browser.newPage()\<close>, \<open>generateId()\<close> and \<open>Date.now()\<close> give the call.
  \<open>render\<close> awaits each of them in turn.
\<close>

definition createPage ::
  "error + Page \<Rightarrow> string \<Rightarrow> nat \<Rightarrow> PagePool \<Rightarrow> (error + Page) \<times> PagePool" where
  "createPage np i now s =
     (case createNewPage np i now s of
        Inl e \<Rightarrow> (Inl e, s)
      | Inr (i', s1) \<Rightarrow> mark_busy i' s1)"

definition acquirePage ::
  "error + Page \<Rightarrow> string \<Rightarrow> nat \<Rightarrow> PagePool \<Rightarrow> Page promise \<times> PagePool" where
  "acquirePage np i now s =
     (case take_idle now s of
        Some (p, s') \<Rightarrow> (Resolved p, s')
      | None \<Rightarrow>
          if length (pool s) < maxSize s then
            (case createNewPage np i now s of
               Inl e \<Rightarrow> (Rejected e, s)
             | Inr (i', s1) \<Rightarrow>
                 (case mark_busy i' s1 of
                    (Inl e, s2) \<Rightarrow> (Rejected e, s2)
                  | (Inr p, s2) \<Rightarrow> (Resolved p, s2)))
          else (Pending, s))"

definition removePage :: "Page \<Rightarrow> PagePool \<Rightarrow> PagePool" where
  "removePage p s =
     (case find (\<lambda>(k, info). page info = p) (pool s) of
        None \<Rightarrow> s
      | Some (k, info) \<Rightarrow>
          let s1 = (case timer info of Some h \<Rightarrow> clearTimeout h s | None \<Rightarrow> s)
          in s1\<lparr>pool := AList.delete k (pool s1)\<rparr>)"

section \<open>Render (core.ts)\<close>

subsection \<open>Task parameters and driver values\<close>

datatype ImageType = png | jpeg | webp

datatype Encoding = base64 | binary

datatype Clip = Clip (clip_x: number) (clip_y: number) (clip_width: number) (clip_height: number)

datatype BoundingBox =
  BoundingBox (box_x: number) (box_y: number) (box_width: number) (box_height: number)

datatype Viewport =
  Viewport (viewport_width: number) (viewport_height: number) (viewport_scale: number)

text \<open>The fields of the driver's \<open>ScreenshotOptions\<close> that the program reads or writes.\<close>

record ScreenshotOptions =
  path :: "string option"
  type :: "ImageType option"
  quality :: "number option"
  fullPage :: "bool option"
  optimizeForSpeed :: "bool option"
  encoding :: "Encoding option"
  omitBackground :: "bool option"
  captureBeyondViewport :: "bool option"
  clip :: "Clip option"

datatype SetViewport =
  SetViewport (setViewport_width: "number option") (setViewport_height: "number option")
    (setViewport_deviceScaleFactor: "number option")

datatype MultiPage = MultiPage_boolean bool | MultiPage_number number

datatype StringOrList = One string | Many "string list"

text \<open>
  \<open>interface screenshot extends ScreenshotOptions\<close>. \<open>setRequestInterception\<close> records
  whether the field holds a function (\<open>typeof data.setRequestInterception === 'function'\<close>);
  \<open>pageGotoParams\<close> is passed to the driver unread.
\<close>

record screenshot = ScreenshotOptions +
  "file" :: string
  selector :: "string option"
  headers :: "(string \<times> string) list option"
  setViewport :: "SetViewport option"
  multiPage :: "MultiPage option"
  pageGotoParams :: "string option"
  waitForSelector :: "StringOrList option"
  waitForFunction :: "StringOrList option"
  waitForRequest :: "StringOrList option"
  waitForResponse :: "StringOrList option"
  setRequestInterception :: bool

text \<open>
  What \<open>screenshot()\<close> of the driver resolves to: a \<open>Buffer\<close>, a plain
  \<open>Uint8Array\<close>, or the base64 string.
\<close>

datatype image = Buffer "nat list" | Uint8Array "nat list" | Base64 string

datatype RenderResult = Image image | Images "image list"

text \<open>
  What the driver and the runtime answer during one call of \<open>render\<close>: each field is the
  outcome of the method of that name on the page (or element) of the call, \<open>None\<close> or
  \<open>Inr\<close> for a promise that resolves, \<open>Some e\<close> or \<open>Inl e\<close> for one that rejects with
  \<open>e\<close>. \<open>page_query\<close> is \<open>page.$\<close>. The answers are functions of the arguments: the
  document does not change during the call, and \<open>Date_now\<close> is the one reading of the
  clock that the call sees.
\<close>

record driver =
  browser_newPage :: "error + Page"
  generateId :: string
  Date_now :: nat
  page_setExtraHTTPHeaders :: "(string \<times> string) list \<Rightarrow> error option"
  page_setRequestInterception :: "error option"
  page_goto :: "string \<Rightarrow> string option \<Rightarrow> error option"
  page_setContent :: "string \<Rightarrow> string option \<Rightarrow> error option"
  page_waitForSelector :: "string \<Rightarrow> error option"
  page_waitForFunction :: "string \<Rightarrow> error option"
  page_waitForRequest :: "string \<Rightarrow> error option"
  page_waitForResponse :: "string \<Rightarrow> error option"
  page_query :: "string \<Rightarrow> error + ElementHandle option"
  element_boundingBox :: "ElementHandle \<Rightarrow> error + BoundingBox option"
  page_setViewport :: "Viewport \<Rightarrow> error option"
  page_screenshot :: "ScreenshotOptions \<Rightarrow> error + image"
  element_screenshot :: "ElementHandle \<Rightarrow> ScreenshotOptions \<Rightarrow> error + image"

text \<open>The capture calls made on the driver, in order, with the options object each received.\<close>

datatype capture_call =
    PageShot ScreenshotOptions
  | ElementShot ElementHandle ScreenshotOptions

fun call_options :: "capture_call \<Rightarrow> ScreenshotOptions" where
  "call_options (PageShot opts) = opts"
| "call_options (ElementShot el opts) = opts"

fun is_PageShot :: "capture_call \<Rightarrow> bool" where
  "is_PageShot (PageShot opts) = True"
| "is_PageShot (ElementShot el opts) = False"

subsection \<open>Truthiness and \<open>||\<close> of JavaScript\<close>

definition truthy_number :: "number option \<Rightarrow> bool" where
  "truthy_number v = (case v of None \<Rightarrow> False | Some n \<Rightarrow> n \<noteq> 0)"

definition truthy_boolean :: "bool option \<Rightarrow> bool" where
  "truthy_boolean v = (case v of None \<Rightarrow> False | Some b \<Rightarrow> b)"

definition truthy_multiPage :: "MultiPage option \<Rightarrow> bool" where
  "truthy_multiPage v =
     (case v of
        None \<Rightarrow> False
      | Some (MultiPage_boolean b) \<Rightarrow> b
      | Some (MultiPage_number n) \<Rightarrow> n \<noteq> 0)"

definition or_number :: "number option \<Rightarrow> number option \<Rightarrow> number option" where
  "or_number a b = (if truthy_number a then a else b)"

definition or_default :: "number option \<Rightarrow> number \<Rightarrow> number" where
  "or_default a d = (case a of None \<Rightarrow> d | Some n \<Rightarrow> if n \<noteq> 0 then n else d)"

definition Math_round :: "number \<Rightarrow> number" where
  "Math_round v = of_int \<lfloor>v + 1 / 2\<rfloor>"

definition startsWith :: "string \<Rightarrow> string \<Rightarrow> bool" where
  "startsWith str pre = (take (length pre) str = pre)"

subsection \<open>\<open>render\<close>: the options object\<close>

definition render_options :: "screenshot \<Rightarrow> ScreenshotOptions" where
  "render_options data =
     (let options =
            \<lparr>path = path data,
             type = Some (case type data of None \<Rightarrow> jpeg | Some t \<Rightarrow> t),
             quality = Some (or_default (quality data) 90),
             fullPage = Some (truthy_boolean (fullPage data)),
             optimizeForSpeed = Some (truthy_boolean (optimizeForSpeed data)),
             encoding = Some (case encoding data of None \<Rightarrow> binary | Some enc \<Rightarrow> enc),
             omitBackground = Some (truthy_boolean (omitBackground data)),
             captureBeyondViewport = Some (truthy_boolean (captureBeyondViewport data)),
             clip = None\<rparr>
      in if truthy_number (quality options) \<and> type data = Some png
         then options\<lparr>quality := None\<rparr> else options)"

subsection \<open>\<open>elementHandle\<close>\<close>

text \<open>
  \<open>await a || await b\<close>: a rejected \<open>a\<close> throws, a non-null \<open>a\<close> is the value, a null
  \<open>a\<close> evaluates \<open>b\<close>.
\<close>

definition lookup_or ::
  "error + ElementHandle option \<Rightarrow> error + ElementHandle option \<Rightarrow> error + ElementHandle option" where
  "lookup_or a b = (case a of Inl e \<Rightarrow> Inl e | Inr (Some el) \<Rightarrow> Inr (Some el) | Inr None \<Rightarrow> b)"

definition elementHandle :: "driver \<Rightarrow> string option \<Rightarrow> error + ElementHandle option" where
  "elementHandle env name =
     (case (case name of
              None \<Rightarrow> lookup_or (page_query env ''#container'') (page_query env ''body'')
            | Some n \<Rightarrow>
                if n \<noteq> [] then
                  lookup_or (page_query env n)
                    (lookup_or (page_query env ''#container'') (page_query env ''body''))
                else lookup_or (page_query env ''#container'') (page_query env ''body'')) of
        Inl err \<Rightarrow> lookup_or (page_query env ''#container'') (page_query env ''body'')
      | Inr element \<Rightarrow> Inr element)"

subsection \<open>\<open>setViewport\<close>\<close>

definition Render_setViewport ::
  "driver \<Rightarrow> number option \<Rightarrow> number option \<Rightarrow> number option \<Rightarrow> error option" where
  "Render_setViewport env w h d =
     (if \<not> truthy_number w \<and> \<not> truthy_number h \<and> \<not> truthy_number d then None
      else page_setViewport env
             (Viewport (Math_round (or_default w 1920)) (Math_round (or_default h 1080))
                (Math_round (or_default d 1))))"

subsection \<open>Paginated capture\<close>

definition slice_height :: "MultiPage option \<Rightarrow> number \<Rightarrow> number" where
  "slice_height mp boxHeight =
     (case mp of
        Some (MultiPage_number n) \<Rightarrow> n
      | _ \<Rightarrow> if boxHeight \<ge> 2000 then 2000 else boxHeight)"

text \<open>
  \<open>Math.ceil(boxHeight / height)\<close>. In \<open>render\<close> a \<open>height\<close> of 0 comes only from a
  \<open>boxHeight\<close> of 0 (a numeric \<open>multiPage\<close> of 0 takes the single-image branch), where
  \<open>0 / 0\<close> is \<open>NaN\<close> and the loop test \<open>i < NaN\<close> is false: no slice, as with a count of 0.
  \<open>Math.ceil\<close> and \<open>Math.min\<close> are exact. The counter \<open>i\<close> of the loop is exact below
  \<open>2 ^ 53\<close>.
\<close>

definition slice_count :: "number \<Rightarrow> number \<Rightarrow> int" where
  "slice_count boxHeight height = (if height = 0 then 0 else \<lceil>Number_div boxHeight height\<rceil>)"

definition slice_clip :: "number \<Rightarrow> number \<Rightarrow> number \<Rightarrow> nat \<Rightarrow> Clip" where
  "slice_clip boxWidth boxHeight height i =
     (let y = Number_mul (of_nat i) height;
          clipHeight = min height (Number_sub boxHeight (Number_mul (of_nat i) height))
      in if i \<noteq> 0 then Clip 0 (Number_sub y 100) boxWidth (Number_add clipHeight 100)
         else Clip 0 y boxWidth clipHeight)"

definition slice_clips :: "number \<Rightarrow> number \<Rightarrow> number \<Rightarrow> Clip list" where
  "slice_clips boxWidth boxHeight height =
     map (slice_clip boxWidth boxHeight height) [0..<nat (slice_count boxHeight height)]"

text \<open>
  The loop body after the clip is computed: \<open>data.clip = ...\<close>, then
  \<open>body.screenshot(data)\<close>, which receives the task's own \<open>data\<close> object.
\<close>

fun capture_slices ::
  "driver \<Rightarrow> ElementHandle \<Rightarrow> screenshot \<Rightarrow> Clip list \<Rightarrow>
     (error + image list) \<times> capture_call list" where
  "capture_slices env body data [] = (Inr [], [])"
| "capture_slices env body data (c # cs) =
     (let data' = data\<lparr>clip := Some c\<rparr>;
          arg = ScreenshotOptions.truncate data'
      in case element_screenshot env body arg of
           Inl e \<Rightarrow> (Inl e, [ElementShot body arg])
         | Inr uint8Array \<Rightarrow>
             (case capture_slices env body data' cs of
                (Inl e, calls) \<Rightarrow> (Inl e, ElementShot body arg # calls)
              | (Inr list, calls) \<Rightarrow> (Inr (uint8Array # list), ElementShot body arg # calls)))"

subsection \<open>The body of \<open>try\<close> in \<open>render\<close>, after \<open>newPage\<close>\<close>

definition capture :: "driver \<Rightarrow> screenshot \<Rightarrow> (error + RenderResult) \<times> capture_call list" where
  "capture env data =
     (let options = render_options data;
          vw = (case setViewport data of None \<Rightarrow> None | Some v \<Rightarrow> setViewport_width v);
          vh = (case setViewport data of None \<Rightarrow> None | Some v \<Rightarrow> setViewport_height v);
          vd = (case setViewport data of None \<Rightarrow> None | Some v \<Rightarrow> setViewport_deviceScaleFactor v)
      in
      if truthy_boolean (fullPage data) then
        (let options' = options\<lparr>captureBeyondViewport := Some True\<rparr>
         in case page_screenshot env options' of
              Inl e \<Rightarrow> (Inl e, [PageShot options'])
            | Inr uint8Array \<Rightarrow>
                (case Render_setViewport env vw vh vd of
                   Some e \<Rightarrow> (Inl e, [PageShot options'])
                 | None \<Rightarrow> (Inr (Image uint8Array), [PageShot options'])))
      else
        (case elementHandle env (selector data) of
           Inl e \<Rightarrow> (Inl e, [])
         | Inr None \<Rightarrow> (Inl TypeError, [])
         | Inr (Some body) \<Rightarrow>
             (case element_boundingBox env body of
                Inl e \<Rightarrow> (Inl e, [])
              | Inr box \<Rightarrow>
                  (case Render_setViewport env
                          (or_number vw (map_option box_width box))
                          (or_number vh (map_option box_height box)) vd of
                     Some e \<Rightarrow> (Inl e, [])
                   | None \<Rightarrow>
                       if \<not> truthy_multiPage (multiPage data) then
                         (case page_screenshot env options of
                            Inl e \<Rightarrow> (Inl e, [PageShot options])
                          | Inr uint8Array \<Rightarrow> (Inr (Image uint8Array), [PageShot options]))
                       else
                         (let boxWidth = (case box of None \<Rightarrow> 1200 | Some b \<Rightarrow> box_width b);
                              boxHeight = (case box of None \<Rightarrow> 2000 | Some b \<Rightarrow> box_height b);
                              height = slice_height (multiPage data) boxHeight
                          in case capture_slices env body data
                                    (slice_clips boxWidth boxHeight height) of
                               (Inl e, calls) \<Rightarrow> (Inl e, calls)
                             | (Inr list, calls) \<Rightarrow> (Inr (Images list), calls))))))"

subsection \<open>\<open>newPage\<close>\<close>

text \<open>\<open>promise.catch(() => { })\<close>: the promise it returns always resolves.\<close>

definition catch_ignore :: "error option \<Rightarrow> error option" where
  "catch_ignore r = (case r of None \<Rightarrow> None | Some e \<Rightarrow> None)"

text \<open>\<open>for (const x of xs) await w(x).catch(() => { })\<close>.\<close>

fun wait_each :: "(string \<Rightarrow> error option) \<Rightarrow> string list \<Rightarrow> error option" where
  "wait_each w [] = None"
| "wait_each w (x # xs) =
     (case catch_ignore (w x) of Some e \<Rightarrow> Some e | None \<Rightarrow> wait_each w xs)"

definition optional_wait :: "(string \<Rightarrow> error option) \<Rightarrow> StringOrList option \<Rightarrow> error option" where
  "optional_wait w v =
     (case v of
        None \<Rightarrow> None
      | Some (One str) \<Rightarrow> if str \<noteq> [] then wait_each w [str] else None
      | Some (Many strs) \<Rightarrow> wait_each w strs)"

text \<open>A sequence of awaited calls: the first rejection is thrown.\<close>

fun first_error :: "error option list \<Rightarrow> error option" where
  "first_error [] = None"
| "first_error (r # rs) = (case r of Some e \<Rightarrow> Some e | None \<Rightarrow> first_error rs)"

definition set_headers :: "driver \<Rightarrow> screenshot \<Rightarrow> error option" where
  "set_headers env data =
     (case headers data of None \<Rightarrow> None | Some h \<Rightarrow> page_setExtraHTTPHeaders env h)"

definition open_file :: "driver \<Rightarrow> screenshot \<Rightarrow> error option" where
  "open_file env data =
     (if startsWith (file data) ''http'' \<or> startsWith (file data) ''file://''
      then page_goto env (file data) (pageGotoParams data)
      else page_setContent env (file data) (pageGotoParams data))"

definition newPage :: "driver \<Rightarrow> screenshot \<Rightarrow> PagePool \<Rightarrow> Page promise \<times> PagePool" where
  "newPage env data s =
     (case (if setRequestInterception data then
              (case createPage (browser_newPage env) (generateId env) (Date_now env) s of
                 (Inl e, s1) \<Rightarrow> (Rejected e, s1)
               | (Inr p, s1) \<Rightarrow>
                   (case first_error [set_headers env data, page_setRequestInterception env] of
                      Some e \<Rightarrow> (Rejected e, s1)
                    | None \<Rightarrow> (Resolved p, s1)))
            else
              (case acquirePage (browser_newPage env) (generateId env) (Date_now env) s of
                 (Resolved p, s1) \<Rightarrow>
                   (case set_headers env data of
                      Some e \<Rightarrow> (Rejected e, s1)
                    | None \<Rightarrow> (Resolved p, s1))
               | (Rejected e, s1) \<Rightarrow> (Rejected e, s1)
               | (Pending, s1) \<Rightarrow> (Pending, s1))) of
        (Resolved p, s1) \<Rightarrow>
          (case first_error
                  [open_file env data,
                   page_waitForSelector env ''body'',
                   optional_wait (page_waitForSelector env) (waitForSelector data),
                   optional_wait (page_waitForFunction env) (waitForFunction data),
                   optional_wait (page_waitForRequest env) (waitForRequest data),
                   optional_wait (page_waitForResponse env) (waitForResponse data)] of
             Some e \<Rightarrow> (Rejected e, s1)
           | None \<Rightarrow> (Resolved p, s1))
      | (Rejected e, s1) \<Rightarrow> (Rejected e, s1)
      | (Pending, s1) \<Rightarrow> (Pending, s1))"

subsection \<open>\<open>render\<close>\<close>

text \<open>
  \<open>render_id\<close> is the field \<open>id\<close>, \<open>render_list\<close> the field \<open>list\<close> (the echoes in
  flight) of the class; the browser and its process are the environment's.
  \<open>continuations\<close> is what is suspended in the code of \<open>pagePool\<close> between two calls of
  \<open>render\<close>: the creation of the first page and the closing of evicted pages.
\<close>

record Render =
  render_id :: nat
  render_list :: "(string \<times> bool) list"
  pagePool :: PagePool
  continuations :: "continuation list"

text \<open>
  The variable \<open>page\<close> of \<open>render\<close> is assigned only when \<open>newPage\<close> returns: when
  \<open>newPage\<close> throws, \<open>catch\<close> and \<open>finally\<close> see it undefined and the pool is left as
  \<open>newPage\<close> left it. A pending \<open>newPage\<close> never reaches \<open>finally\<close>.
\<close>

definition render ::
  "driver \<Rightarrow> string \<Rightarrow> screenshot \<Rightarrow> Render \<Rightarrow>
     RenderResult promise \<times> Render \<times> capture_call list" where
  "render env echo data r =
     (let r1 = r\<lparr>render_list := AList.update echo True (render_list r)\<rparr>
      in case newPage env data (pagePool r1) of
           (Pending, s1) \<Rightarrow> (Pending, r1\<lparr>pagePool := s1\<rparr>, [])
         | (Rejected e, s1) \<Rightarrow>
             (Rejected e,
              r1\<lparr>pagePool := s1, render_list := AList.delete echo (render_list r1)\<rparr>, [])
         | (Resolved p, s1) \<Rightarrow>
             (case capture env data of
                (Inl e, calls) \<Rightarrow>
                  (Rejected e,
                   r1\<lparr>pagePool := removePage p s1,
                      render_list := AList.delete echo (render_list r1)\<rparr>, calls)
              | (Inr result, calls) \<Rightarrow>
                  (Resolved result,
                   r1\<lparr>pagePool := releasePage p (Date_now env) s1,
                      render_list := AList.delete echo (render_list r1)\<rparr>, calls)))"

section \<open>Puppeteer (index.ts)\<close>

record Puppeteer =
  index :: nat
  list :: "Render list"

definition Puppeteer_new :: Puppeteer where
  "Puppeteer_new = \<lparr>index = 0, list = []\<rparr>"

text \<open>
  \<open>Render.init\<close>: \<open>puppeteer_launch\<close> is what \<open>puppeteer.launch\<close> settles to (\<open>Some e\<close> when it
  rejects). When \<open>init\<close> returns the pool is as its constructor left it.
\<close>

record launch_env =
  puppeteer_launch :: "error option"

definition Render_init :: "launch_env \<Rightarrow> nat \<Rightarrow> error + Render" where
  "Render_init w n =
     (case puppeteer_launch w of
        Some e \<Rightarrow> Inl e
      | None \<Rightarrow>
          Inr \<lparr>render_id = n, render_list = [],
               pagePool = fst PagePool_new, continuations = snd PagePool_new\<rparr>)"

definition launch :: "launch_env \<Rightarrow> Puppeteer \<Rightarrow> error option \<times> Puppeteer" where
  "launch w s =
     (let s1 = s\<lparr>index := Suc (index s)\<rparr>
      in case Render_init w (index s) of
           Inl e \<Rightarrow> (Some e, s1)
         | Inr browser \<Rightarrow> (None, s1\<lparr>list := list s1 @ [browser]\<rparr>))"

fun findIndex :: "('a \<Rightarrow> bool) \<Rightarrow> 'a list \<Rightarrow> nat option" where
  "findIndex P [] = None"
| "findIndex P (x # xs) =
     (if P x then Some 0 else (case findIndex P xs of None \<Rightarrow> None | Some n \<Rightarrow> Some (Suc n)))"

definition splice1 :: "nat \<Rightarrow> 'a list \<Rightarrow> 'a list" where
  "splice1 n xs = take n xs @ drop (Suc n) xs"

text \<open>The listener of \<open>browserCrash\<close> that \<open>init\<close> registers, with the launch run to its end.\<close>

definition browserCrash :: "nat \<Rightarrow> launch_env \<Rightarrow> Puppeteer \<Rightarrow> Puppeteer" where
  "browserCrash x w s =
     (let s1 = (case findIndex (\<lambda>item. render_id item = x) (list s) of
                  None \<Rightarrow> s
                | Some n \<Rightarrow> s\<lparr>list := splice1 n (list s)\<rparr>)
      in snd (launch w s1))"

definition task ::
  "driver \<Rightarrow> string \<Rightarrow> screenshot \<Rightarrow> Puppeteer \<Rightarrow> RenderResult promise \<times> Puppeteer" where
  "task env uuid options s =
     (case list s of
        [] \<Rightarrow> (Rejected TypeError, s)
      | browser # rest \<Rightarrow>
          (case render env uuid options browser of
             (result, browser', calls) \<Rightarrow> (result, s\<lparr>list := rest @ [browser']\<rparr>)))"

fun Array_isArray :: "RenderResult \<Rightarrow> bool" where
  "Array_isArray (Images imgs) = True"
| "Array_isArray (Image img) = False"

fun Buffer_isBuffer :: "RenderResult \<Rightarrow> bool" where
  "Buffer_isBuffer (Image (Buffer bytes)) = True"
| "Buffer_isBuffer _ = False"

text \<open>
  \<open>Puppeteer.screenshot\<close>: \<open>env1\<close> and \<open>uuid1\<close> are the environment and the random id of
  the first call of \<open>task\<close>, \<open>env2\<close> and \<open>uuid2\<close> those of the second, if it is made.
\<close>

definition Puppeteer_screenshot ::
  "driver \<Rightarrow> string \<Rightarrow> driver \<Rightarrow> string \<Rightarrow> screenshot \<Rightarrow> Puppeteer \<Rightarrow>
     RenderResult promise \<times> Puppeteer" where
  "Puppeteer_screenshot env1 uuid1 env2 uuid2 options s =
     (case task env1 uuid1 options s of
        (Resolved result, s1) \<Rightarrow>
          if Array_isArray result \<or> Buffer_isBuffer result then (Resolved result, s1)
          else task env2 uuid2 options s1
      | (Rejected e, s1) \<Rightarrow> (Rejected e, s1)
      | (Pending, s1) \<Rightarrow> (Pending, s1))"

text \<open>
  Between two tasks, what is suspended in the pool of the instance with id \<open>n\<close> can
  resume: its first page arrives, one of its timeouts fires, a page it closes is closed.
\<close>

fun is_event :: "pool_op \<Rightarrow> bool" where
  "is_event (NewPage_settles pu np i now) = True"
| "is_event (Timeout_fires h) = True"
| "is_event (Close_settles k) = True"
| "is_event _ = False"

definition pool_event :: "nat \<Rightarrow> pool_op \<Rightarrow> Puppeteer \<Rightarrow> Puppeteer" where
  "pool_event n ev s =
     s\<lparr>list :=
         map (\<lambda>b. if render_id b = n \<and> is_event ev then
                     (case pool_step ev (pagePool b, continuations b) of
                        (s', cs') \<Rightarrow> b\<lparr>pagePool := s', continuations := cs'\<rparr>)
                   else b)
             (list s)\<rparr>"

datatype puppeteer_op =
    Launch launch_env
  | BrowserCrash nat launch_env
  | Task driver string screenshot
  | PoolEvent nat pool_op

fun puppeteer_step :: "puppeteer_op \<Rightarrow> Puppeteer \<Rightarrow> Puppeteer" where
  "puppeteer_step (Launch w) s = snd (launch w s)"
| "puppeteer_step (BrowserCrash x w) s = browserCrash x w s"
| "puppeteer_step (Task env uuid options) s = snd (task env uuid options s)"
| "puppeteer_step (PoolEvent n ev) s = pool_event n ev s"

definition puppeteer_run :: "puppeteer_op list \<Rightarrow> Puppeteer \<Rightarrow> Puppeteer" where
  "puppeteer_run ops s = fold puppeteer_step ops s"

section \<open>Properties\<close>

subsection \<open>Slots and timers of a pool\<close>

text \<open>
  No armed timeout has a callback for the id of a busy slot. An idle slot has never been
  released (its \<open>timer\<close> field, which only \<open>startIdleTimer\<close> writes, is still undefined)
  or the timeout in its \<open>timer\<close> field is armed, with a callback for this slot's id.
\<close>

definition slot_inv :: "PagePool \<Rightarrow> string \<Rightarrow> PageInfo \<Rightarrow> bool" where
  "slot_inv s k info =
     (case status info of
        Busy \<Rightarrow> list_all (\<lambda>(h, k'). k' \<noteq> k) (timers s)
      | Idle \<Rightarrow> (case timer info of None \<Rightarrow> True | Some h \<Rightarrow> map_of (timers s) h = Some k))"

definition pool_inv :: "PagePool \<Rightarrow> bool" where
  "pool_inv s = list_all (\<lambda>(k, info). slot_inv s k info) (pool s)"

text \<open>Every armed timeout is an object that \<open>setTimeout\<close> has already returned.\<close>

definition timers_fresh :: "PagePool \<Rightarrow> bool" where
  "timers_fresh s = list_all (\<lambda>(h, k). h < next_timer s) (timers s)"

text \<open>
  The slot of page \<open>p\<close> (the first with that page, as \<open>releasePage\<close> finds it) is idle
  and its timeout is armed for it.
\<close>

definition released_slot :: "PagePool \<Rightarrow> Page \<Rightarrow> bool" where
  "released_slot s p =
     (case find (\<lambda>(k, info). page info = p) (pool s) of
        None \<Rightarrow> False
      | Some (k, info) \<Rightarrow>
          status info = Idle \<and>
          (case timer info of None \<Rightarrow> False | Some h \<Rightarrow> map_of (timers s) h = Some k))"

definition pages :: "PagePool \<Rightarrow> Page list" where
  "pages s = map (\<lambda>(k, info). page info) (pool s)"

subsection \<open>Sequences of steps that keep a pool within its capacity\<close>





subsection \<open>Element resolution as the specification words it\<close>

text \<open>
  The ordered list of candidate lookups, evaluated until one succeeds, a lookup that
  raises counting as one that finds nothing.
\<close>

definition candidates :: "string option \<Rightarrow> string list" where
  "candidates name =
     (case name of
        None \<Rightarrow> [''#container'', ''body'']
      | Some n \<Rightarrow> if n \<noteq> [] then [n, ''#container'', ''body''] else [''#container'', ''body''])"

fun first_found ::
  "(string \<Rightarrow> error + ElementHandle option) \<Rightarrow> string list \<Rightarrow> ElementHandle option" where
  "first_found q [] = None"
| "first_found q (c # cs) =
     (case q c of Inr (Some el) \<Rightarrow> Some el | Inr None \<Rightarrow> first_found q cs | Inl e \<Rightarrow> first_found q cs)"

definition spec_elementHandle :: "driver \<Rightarrow> string option \<Rightarrow> error + ElementHandle option" where
  "spec_elementHandle env name = Inr (first_found (page_query env) (candidates name))"

text \<open>The caller's selector alone, a lookup that raises counting as one that finds nothing.\<close>

definition selector_found :: "driver \<Rightarrow> string option \<Rightarrow> ElementHandle option" where
  "selector_found env name =
     (case name of
        None \<Rightarrow> None
      | Some n \<Rightarrow> if n \<noteq> [] then first_found (page_query env) [n] else None)"

subsection \<open>A task without its optional waits\<close>

definition strip_waits :: "screenshot \<Rightarrow> screenshot" where
  "strip_waits data =
     data\<lparr>waitForSelector := None, waitForFunction := None,
          waitForRequest := None, waitForResponse := None\<rparr>"

subsection \<open>Rotation of a dispatcher\<close>

definition ids :: "Puppeteer \<Rightarrow> nat list" where
  "ids s = map render_id (list s)"

text \<open>The ids in the rotation are distinct and below the next id to assign.\<close>

definition puppeteer_wf :: "Puppeteer \<Rightarrow> bool" where
  "puppeteer_wf s \<longleftrightarrow> distinct (ids s) \<and> (\<forall>n \<in> set (ids s). n < index s)"

subsection \<open>Concrete tasks and environments\<close>

definition data0 :: screenshot where
  "data0 =
     \<lparr>path = None, type = None, quality = None, fullPage = None, optimizeForSpeed = None,
      encoding = None, omitBackground = None, captureBeyondViewport = None, clip = None,
      file = ''<p>hi</p>'', selector = None, headers = None, setViewport = None,
      multiPage = None, pageGotoParams = None, waitForSelector = None,
      waitForFunction = None, waitForRequest = None, waitForResponse = None,
      setRequestInterception = False\<rparr>"

definition data_png_pages :: screenshot where
  "data_png_pages =
     data0\<lparr>type := Some png, quality := Some 90, multiPage := Some (MultiPage_boolean True)\<rparr>"

definition data_pages :: screenshot where
  "data_pages = data0\<lparr>multiPage := Some (MultiPage_boolean True)\<rparr>"

definition data_zero :: screenshot where
  "data_zero = data0\<lparr>multiPage := Some (MultiPage_number 0)\<rparr>"

definition data_intercept :: screenshot where
  "data_intercept = data0\<lparr>setRequestInterception := True\<rparr>"

text \<open>
  A page that loads, has a \<open>body\<close> (element 7) of 1200 by 4500 pixels and no
  \<open>#container\<close>, and whose captures succeed.
\<close>

definition env_ok :: driver where
  "env_ok =
     \<lparr>browser_newPage = Inr 2, generateId = ''b'', Date_now = 5,
      page_setExtraHTTPHeaders = (\<lambda>h. None), page_setRequestInterception = None,
      page_goto = (\<lambda>f g. None), page_setContent = (\<lambda>f g. None),
      page_waitForSelector = (\<lambda>sel. None), page_waitForFunction = (\<lambda>f. None),
      page_waitForRequest = (\<lambda>f. None), page_waitForResponse = (\<lambda>f. None),
      page_query = (\<lambda>sel. if sel = ''body'' then Inr (Some 7) else Inr None),
      element_boundingBox = (\<lambda>el. Inr (Some (BoundingBox 0 0 1200 4500))),
      page_setViewport = (\<lambda>v. None),
      page_screenshot = (\<lambda>opts. Inr (Buffer [1])),
      element_screenshot = (\<lambda>el opts. Inr (Buffer [2]))\<rparr>"

text \<open>The same page when the navigation fails.\<close>

definition env_fail :: driver where
  "env_fail =
     env_ok\<lparr>page_goto := (\<lambda>f g. Some (Error ''net::ERR_FAILED'')),
            page_setContent := (\<lambda>f g. Some (Error ''net::ERR_FAILED''))\<rparr>"

text \<open>The same page when every optional wait times out.\<close>

definition env_timeouts :: driver where
  "env_timeouts =
     env_ok\<lparr>page_waitForSelector :=
              (\<lambda>sel. if sel = ''body'' then None else Some (Error ''TimeoutError'')),
            page_waitForFunction := (\<lambda>f. Some (Error ''TimeoutError'')),
            page_waitForRequest := (\<lambda>f. Some (Error ''TimeoutError'')),
            page_waitForResponse := (\<lambda>f. Some (Error ''TimeoutError''))\<rparr>"

definition data_waits :: screenshot where
  "data_waits =
     data0\<lparr>waitForSelector := Some (Many [''#a'', ''#b'']),
           waitForFunction := Some (One ''ready()''),
           waitForRequest := Some (One ''https://example.org/a.js''),
           waitForResponse := Some (Many [''https://example.org/a.js''])\<rparr>"

text \<open>A page that has been closed: every lookup rejects.\<close>

definition env_closed :: driver where
  "env_closed = env_ok\<lparr>page_query := (\<lambda>sel. Inl (Error ''detached''))\<rparr>"

text \<open>
  The options that the full-page branch and the single-image branch of \<open>render\<close> pass
  to \<open>page.screenshot\<close>.
\<close>

definition single_options :: "screenshot \<Rightarrow> ScreenshotOptions" where
  "single_options data =
     (if truthy_boolean (fullPage data) then (render_options data)\<lparr>captureBeyondViewport := Some True\<rparr>
      else render_options data)"

text \<open>An instance whose first page (page 1, slot \<open>a\<close>) has arrived.\<close>

definition first_page :: "pool_op list" where
  "first_page = [NewPage_settles First (Inr 1) ''a'' 0]"

definition r0 :: Render where
  "r0 = \<lparr>render_id = 0, render_list = [],
         pagePool = fst (pool_run first_page PagePool_new),
         continuations = snd (pool_run first_page PagePool_new)\<rparr>"

text \<open>The instance \<open>r0\<close> while another task holds its first page.\<close>

definition r_busy :: Render where
  "r_busy = r0\<lparr>pagePool := snd (acquirePage (Inr 9) ''z'' 1 (pagePool r0))\<rparr>"

definition w_ok :: launch_env where
  "w_ok = \<lparr>puppeteer_launch = None\<rparr>"

text \<open>Two instances launched; one instance launched, crashed and replaced.\<close>

definition two_browsers :: Puppeteer where
  "two_browsers = puppeteer_run [Launch w_ok, Launch w_ok] Puppeteer_new"

definition after_crash :: Puppeteer where
  "after_crash = puppeteer_run [Launch w_ok, BrowserCrash 0 w_ok] Puppeteer_new"

definition launch_task_launch :: "puppeteer_op list" where
  "launch_task_launch =
     [Launch w_ok, Launch w_ok, PoolEvent 0 (NewPage_settles First (Inr 1) ''a'' 0),
      Task env_ok ''u0'' data0, Launch w_ok]"




text \<open>
  The first page arrives, is acquired and released, and the timeout of its slot fires:
  the callback waits for \<open>page.close()\<close>.
\<close>

definition evicting :: "pool_op list" where
  "evicting =
     [NewPage_settles First (Inr 1) ''a'' 0, AcquirePage_call 1, ReleasePage 1 2,
      Timeout_fires 0]"

section \<open>Arithmetic on numbers\<close>

lemma round_half_even_of_int: "round_half_even (of_int j) = j"
  by (simp add: round_half_even_def)

lemma powi_less_exp:
  assumes "(2::rat) powi a < 2 powi b"
  shows "a < b"
proof (rule ccontr)
  assume "\<not> a < b"
  then have "b \<le> a" by simp
  then have "(2::rat) powi b \<le> 2 powi a" by (intro power_int_increasing) simp_all
  with assms show False by simp
qed

lemma binade_le:
  assumes "\<bar>m\<bar> < 2 ^ 53" "-1074 \<le> k"
  shows "binade (of_int m * 2 powi k) - 52 \<le> k"
proof (cases "find (\<lambda>e. 2 powi e \<le> \<bar>of_int m * 2 powi k :: rat\<bar> \<and> \<bar>of_int m * 2 powi k :: rat\<bar> < 2 powi (e + 1)) exponents")
  case None
  with assms(2) show ?thesis by (simp add: binade_def)
next
  case (Some e)
  then have le: "2 powi e \<le> \<bar>of_int m * 2 powi k :: rat\<bar>"
    by (auto simp: find_Some_iff)
  have "\<bar>of_int m * 2 powi k :: rat\<bar> = of_int \<bar>m\<bar> * 2 powi k"
    by (simp add: abs_mult)
  also have "\<dots> < 2 ^ 53 * 2 powi k"
  proof -
    from assms(1) have "(of_int \<bar>m\<bar> :: rat) < of_int (2 ^ 53)" by (simp only: of_int_less_iff)
    then have "(of_int \<bar>m\<bar> :: rat) < 2 ^ 53" by simp
    then show ?thesis by (simp add: mult_strict_right_mono)
  qed
  also have "\<dots> = 2 powi (53 + k)" by (simp add: power_int_add)
  finally have "(2::rat) powi e < 2 powi (53 + k)" using le by simp
  then have "e < 53 + k" by (rule powi_less_exp)
  with Some show ?thesis by (simp add: binade_def)
qed

text \<open>
  A double is not rounded: an integer below \<open>2 ^ 53\<close> in magnitude times a power of two
  that is at least the smallest subnormal.
\<close>

lemma binary64_exact:
  assumes "\<bar>m\<bar> < 2 ^ 53" "-1074 \<le> k"
  shows "binary64 (of_int m * 2 powi k) = of_int m * 2 powi k"
proof -
  define x :: rat where "x = of_int m * 2 powi k"
  define d where "d = k - (binade x - 52)"
  from binade_le[OF assms] have d0: "0 \<le> d" by (simp add: d_def x_def)
  have "x / 2 powi (binade x - 52) = of_int m * 2 powi d"
    by (simp add: x_def d_def power_int_diff)
  also have "\<dots> = of_int (m * 2 ^ nat d)" using d0 by (simp add: power_int_nonneg_exp)
  finally have q: "x / 2 powi (binade x - 52) = of_int (m * 2 ^ nat d)" .
  have "binary64 x = of_int (m * 2 ^ nat d) * 2 powi (binade x - 52)"
    by (simp only: binary64_def Let_def q round_half_even_of_int)
  also have "\<dots> = of_int m * (2 powi d * 2 powi (binade x - 52))"
    using d0 by (simp add: power_int_nonneg_exp)
  also have "2 powi d * 2 powi (binade x - 52) = (2::rat) powi k"
    by (simp add: d_def flip: power_int_add)
  finally show ?thesis by (simp add: x_def)
qed

lemma binary64_of_int: "\<bar>m\<bar> < 2 ^ 53 \<Longrightarrow> binary64 (of_int m) = of_int m"
  using binary64_exact[of m 0] by simp

lemma binary64_numeral: "numeral n < (2::int) ^ 53 \<Longrightarrow> binary64 (numeral n) = numeral n"
  using binary64_of_int[of "numeral n"] by simp

lemma binary64_0: "binary64 0 = 0"
  using binary64_of_int[of 0] by simp

lemma binary64_9_4: "binary64 (9 / 4) = 9 / 4"
  using binary64_exact[of 9 "-2"] by simp

lemma set_exponents: "set exponents = {-1022..1023}"
  by (simp only: exponents_def set_upto)

lemma binadeI:
  assumes "2 powi e \<le> \<bar>x\<bar>" "\<bar>x\<bar> < 2 powi (e + 1)" "-1022 \<le> e" "e \<le> 1023"
  shows "binade x = e"
proof -
  let ?P = "\<lambda>e. 2 powi e \<le> \<bar>x\<bar> \<and> \<bar>x\<bar> < 2 powi (e + 1)"
  from assms have "e \<in> set exponents \<and> ?P e" by (simp add: set_exponents)
  then have "find ?P exponents \<noteq> None" by (auto simp: find_None_iff)
  then obtain e' where f: "find ?P exponents = Some e'" by auto
  then have "?P e'" by (auto simp: find_Some_iff)
  with assms(1,2) have "(2::rat) powi e' < 2 powi (e + 1)" "(2::rat) powi e < 2 powi (e' + 1)"
    by simp_all
  then have "e' < e + 1" "e < e' + 1" by (auto dest: powi_less_exp)
  with f show ?thesis by (simp add: binade_def)
qed

text \<open>
  The quotient is rounded before \<open>Math.ceil\<close>: a box of height 37795.5 cut at 839.9 (the
  double nearest to it, which is a little smaller) gives 45 slices, where the exact
  quotient of the two doubles is a little more than 45.
\<close>

lemma binary64_8399_10: "binary64 (8399 / 10) = 7387838529352499 / 2 ^ 43"
proof -
  have b: "binade (8399 / 10) = 9" by (rule binadeI) simp_all
  have f: "\<lfloor>36939192646762496 / 5 :: rat\<rfloor> = 7387838529352499"
    by (simp add: floor_eq_iff)
  have r: "round_half_even (8399 / 10 / 2 powi (9 - 52)) = 7387838529352499"
    by (simp add: round_half_even_def Let_def power_int_minus f)
  show ?thesis unfolding binary64_def Let_def b r by (simp add: power_int_minus)
qed

lemma slice_count_rounded:
  "slice_count (75591 / 2) (binary64 (8399 / 10)) = 45 \<and>
   \<lceil>(75591 / 2) / binary64 (8399 / 10) :: rat\<rceil> = 46"
proof -
  let ?q = "(75591 / 2) / (7387838529352499 / 2 ^ 43) :: rat"
  have b: "binade ?q = 5" by (rule binadeI) simp_all
  have f: "\<lfloor>?q / 2 powi (5 - 52)\<rfloor> = 6333186975989760"
    by (simp add: floor_eq_iff power_int_minus)
  have r: "round_half_even (?q / 2 powi (5 - 52)) = 6333186975989760"
    unfolding round_half_even_def Let_def f by (simp add: power_int_minus)
  have d: "binary64 ?q = 45" unfolding binary64_def Let_def b r by (simp add: power_int_minus)
  have c: "\<lceil>?q\<rceil> = 46" by (simp add: ceiling_eq_iff)
  show ?thesis
    unfolding slice_count_def Number_div_def binary64_8399_10 d c by simp
qed

section \<open>The page pool: steps, capacity and idle timers\<close>

subsection \<open>Association lists\<close>





subsection \<open>A call taken alone is its steps run back to back\<close>

lemma createPage_steps:
  "pool_run [CreatePage_call, NewPage_settles ForCreate np i now, CreateNewPage_returns i] (s, [])
   = (snd (createPage np i now s), [])"
  by (cases np)
     (simp_all add: pool_run_def createPage_call_def newPage_settles_def
        createNewPage_returns_def createPage_def createNewPage_def)

lemma acquirePage_steps:
  "pool_run [AcquirePage_call now, NewPage_settles ForAcquire np i now, CreateNewPage_returns i]
     (s, [])
   = (snd (acquirePage np i now s),
      if fst (acquirePage np i now s) = Pending then [Polling] else [])"
proof (cases "take_idle now s")
  case (Some r)
  then show ?thesis
    by (cases r)
       (simp add: pool_run_def acquirePage_call_def newPage_settles_def
          createNewPage_returns_def acquirePage_def)
next
  case None
  show ?thesis
  proof (cases "length (pool s) < maxSize s")
    case False
    with None show ?thesis
      by (simp add: pool_run_def acquirePage_call_def newPage_settles_def
            createNewPage_returns_def acquirePage_def)
  next
    case True
    with None show ?thesis
      by (cases np)
         (auto simp: pool_run_def acquirePage_call_def newPage_settles_def
            createNewPage_returns_def acquirePage_def createNewPage_def
            split: prod.splits sum.splits)
  qed
qed

lemma removePage_steps:
  "pool_run
     (RemovePage_call p #
      (case find (\<lambda>(k, info). page info = p) (pool s) of
         None \<Rightarrow> []
       | Some (k, info) \<Rightarrow> [Close_settles k]))
     (s, [])
   = (removePage p s, [])"
  by (auto simp: pool_run_def removePage_call_def close_settles_def removePage_def
        clearTimeout_def split: option.splits)

subsection \<open>The number of slots\<close>













subsection \<open>Armed timeouts\<close>

lemma fresh_clearTimeout: "timers_fresh s \<Longrightarrow> timers_fresh (clearTimeout h s)"
  by (auto simp: timers_fresh_def clearTimeout_def AList.delete_eq list_all_iff)

lemma fresh_pool_update: "timers_fresh (s\<lparr>pool := xs\<rparr>) = timers_fresh s"
  by (simp add: timers_fresh_def)

lemma fresh_take_idle:
  assumes "timers_fresh s" "take_idle now s = Some (p, s')"
  shows "timers_fresh s'"
  using assms
  by (auto simp: take_idle_def Let_def fresh_clearTimeout fresh_pool_update
        split: option.splits prod.splits)

lemma fresh_startIdleTimer: "timers_fresh s \<Longrightarrow> timers_fresh (startIdleTimer i s)"
  by (auto simp: startIdleTimer_def Let_def timers_fresh_def clearTimeout_def AList.delete_eq
        list_all_iff less_Suc_eq split: option.splits)

lemma fresh_releasePage: "timers_fresh s \<Longrightarrow> timers_fresh (releasePage p now s)"
  by (auto simp: releasePage_def fresh_startIdleTimer fresh_pool_update split: option.splits)

lemma fresh_mark_busy: "timers_fresh s \<Longrightarrow> timers_fresh (snd (mark_busy i s))"
  by (auto simp: mark_busy_def fresh_pool_update split: option.splits)

lemma fresh_createNewPage:
  "timers_fresh s \<Longrightarrow> createNewPage np i now s = Inr (j, s') \<Longrightarrow> timers_fresh s'"
  by (auto simp: createNewPage_def fresh_pool_update split: sum.splits)

lemma fresh_pool_step:
  assumes "timers_fresh (fst c)"
  shows "timers_fresh (fst (pool_step x c))"
proof (cases c)
  case (Pair s cs)
  with assms have f: "timers_fresh s" by simp
  show ?thesis
  proof (cases x)
    case (AcquirePage_call now)
    with f show ?thesis using Pair
      by (auto simp: acquirePage_call_def fresh_take_idle split: option.splits)
  next
    case (AcquirePage_poll now)
    with f show ?thesis using Pair
      by (auto simp: acquirePage_poll_def fresh_take_idle split: option.splits)
  next
    case CreatePage_call
    with f show ?thesis using Pair by (simp add: createPage_call_def)
  next
    case (NewPage_settles pu np i now)
    with f show ?thesis using Pair
      by (auto simp: newPage_settles_def fresh_createNewPage split: sum.splits)
  next
    case (CreateNewPage_returns i)
    with f show ?thesis using Pair by (simp add: createNewPage_returns_def fresh_mark_busy)
  next
    case (ReleasePage p now)
    with f show ?thesis using Pair by (simp add: fresh_releasePage)
  next
    case (RemovePage_call p)
    with f show ?thesis using Pair
      by (auto simp: removePage_call_def fresh_clearTimeout split: option.splits)
  next
    case (Timeout_fires h)
    with f show ?thesis using Pair
      by (auto simp: timeout_fires_def fresh_clearTimeout split: option.splits)
  next
    case (Close_settles k)
    with f show ?thesis using Pair by (simp add: close_settles_def fresh_pool_update)
  qed
qed

lemma fresh_pool_run: "timers_fresh (fst c) \<Longrightarrow> timers_fresh (fst (pool_run xs c))"
  unfolding pool_run_def by (induction xs arbitrary: c) (simp_all add: fresh_pool_step)

lemma fresh_PagePool_new: "timers_fresh (fst PagePool_new)"
  by (simp add: PagePool_new_def PagePool_fields_def timers_fresh_def)

lemma fresh_lt:
  assumes "timers_fresh s" "map_of (timers s) h = Some k"
  shows "h < next_timer s"
  using assms map_of_SomeD[of "timers s" h k] by (auto simp: timers_fresh_def list_all_iff)

subsection \<open>The claims on the pool\<close>

lemmas step_defs = pool_run_def acquirePage_call_def acquirePage_poll_def createPage_call_def
  newPage_settles_def createNewPage_returns_def removePage_call_def timeout_fires_def
  close_settles_def

lemmas pool_defs = PagePool_new_def PagePool_fields_def createNewPage_def createPage_def
  mark_busy_def acquirePage_def take_idle_def releasePage_def removePage_def startIdleTimer_def
  clearTimeout_def






text \<open>
  C9: the code at the failing input. The first page arrives, is acquired and released,
  and the timeout of its slot fires. While the callback waits for \<open>page.close()\<close>, the
  slot is idle, has been released, and no timeout is armed: the invariant does not hold.
  An \<open>acquirePage\<close> in that state hands out page 1, the page that is being closed; and
  when \<open>page.close()\<close> settles, the callback deletes the slot that was acquired.
\<close>

theorem evicted_slot_acquired:
  "map (\<lambda>(k, info). (k, page info, status info, timer info))
       (pool (fst (pool_run evicting PagePool_new))) = [(''a'', 1, Idle, Some 0)] \<and>
   timers (fst (pool_run evicting PagePool_new)) = [] \<and>
   snd (pool_run evicting PagePool_new) = [Closing ''a''] \<and>
   \<not> pool_inv (fst (pool_run evicting PagePool_new)) \<and>
   fst (acquirePage (Inr 2) ''b'' 3 (fst (pool_run evicting PagePool_new))) = Resolved 1 \<and>
   pool (fst (pool_run (evicting @ [AcquirePage_call 3, Close_settles ''a'']) PagePool_new)) = []"
  by (simp add: evicting_def step_defs pool_defs pool_inv_def slot_inv_def)

section \<open>The dispatcher: rotation, crash replacement and retry\<close>

lemma render_id_render: "render_id (fst (snd (render env echo data r))) = render_id r"
  by (auto simp: render_def Let_def split: prod.splits promise.splits sum.splits)

lemma ids_task: "ids (snd (task env uuid options s)) = rotate1 (ids s)"
proof (cases "list s")
  case Nil
  then show ?thesis by (simp add: task_def ids_def)
next
  case (Cons browser rest)
  obtain result browser' calls where r: "render env uuid options browser = (result, browser', calls)"
    by (cases "render env uuid options browser")
  from render_id_render[of env uuid options browser] r have "render_id browser' = render_id browser"
    by simp
  with Cons r show ?thesis by (simp add: task_def ids_def)
qed

lemma index_task: "index (snd (task env uuid options s)) = index s"
  by (auto simp: task_def split: list.splits prod.splits)

lemma findIndex_None: "findIndex P xs = None \<longleftrightarrow> (\<forall>x \<in> set xs. \<not> P x)"
  by (induction xs) (auto split: option.splits)

lemma findIndex_splice:
  "findIndex (\<lambda>item. f item = x) xs = Some n \<Longrightarrow>
   map f (splice1 n xs) = remove1 x (map f xs) \<and> x \<in> set (map f xs)"
proof (induction xs arbitrary: n)
  case Nil
  then show ?case by simp
next
  case (Cons a xs)
  show ?case
  proof (cases "f a = x")
    case True
    with Cons.prems show ?thesis by (simp add: splice1_def)
  next
    case False
    with Cons.prems obtain m where m: "findIndex (\<lambda>item. f item = x) xs = Some m" and n: "n = Suc m"
      by (auto split: option.splits)
    from Cons.IH[OF m] False n show ?thesis by (simp add: splice1_def)
  qed
qed

lemma launch_ok:
  assumes "puppeteer_launch w = None"
  shows "ids (snd (launch w s)) = ids s @ [index s] \<and> index (snd (launch w s)) = Suc (index s)"
  using assms by (simp add: launch_def Render_init_def ids_def Let_def)

lemma launch_any:
  "(ids (snd (launch w s)) = ids s @ [index s] \<or> ids (snd (launch w s)) = ids s) \<and>
   index (snd (launch w s)) = Suc (index s)"
  by (cases "puppeteer_launch w") (simp_all add: launch_def Render_init_def ids_def Let_def)

lemma wf_launch: "puppeteer_wf s \<Longrightarrow> puppeteer_wf (snd (launch w s))"
  using launch_any[of w s] by (auto simp: puppeteer_wf_def less_Suc_eq)

lemma crash_removed:
  "ids (case findIndex (\<lambda>item. render_id item = x) (list s) of
          None \<Rightarrow> s | Some n \<Rightarrow> s\<lparr>list := splice1 n (list s)\<rparr>) = remove1 x (ids s) \<and>
   index (case findIndex (\<lambda>item. render_id item = x) (list s) of
          None \<Rightarrow> s | Some n \<Rightarrow> s\<lparr>list := splice1 n (list s)\<rparr>) = index s"
proof (cases "findIndex (\<lambda>item. render_id item = x) (list s)")
  case None
  then have "x \<notin> set (ids s)" by (auto simp: findIndex_None ids_def)
  with None show ?thesis by (simp add: remove1_idem)
next
  case (Some n)
  from findIndex_splice[OF Some] Some show ?thesis by (simp add: ids_def)
qed

lemma wf_remove1:
  assumes "puppeteer_wf s" "ids s' = remove1 x (ids s)" "index s' = index s"
  shows "puppeteer_wf s'"
  using assms by (auto simp: puppeteer_wf_def dest: notin_set_remove1)

lemma wf_browserCrash: "puppeteer_wf s \<Longrightarrow> puppeteer_wf (browserCrash x w s)"
  unfolding browserCrash_def Let_def
  using crash_removed[where x=x and s=s] by (intro wf_launch) (auto intro: wf_remove1)

lemma wf_task: "puppeteer_wf s \<Longrightarrow> puppeteer_wf (snd (task env uuid options s))"
  by (simp add: puppeteer_wf_def ids_task index_task)

lemma ids_pool_event: "ids (pool_event n ev s) = ids s"
  by (auto simp: pool_event_def ids_def split: prod.splits)

lemma index_pool_event: "index (pool_event n ev s) = index s"
  by (simp add: pool_event_def)

lemma wf_pool_event: "puppeteer_wf s \<Longrightarrow> puppeteer_wf (pool_event n ev s)"
  by (simp add: puppeteer_wf_def ids_pool_event index_pool_event)

lemma wf_puppeteer_step: "puppeteer_wf s \<Longrightarrow> puppeteer_wf (puppeteer_step op s)"
  by (cases op) (simp_all add: wf_launch wf_browserCrash wf_task wf_pool_event)

lemma wf_puppeteer_run: "puppeteer_wf s \<Longrightarrow> puppeteer_wf (puppeteer_run ops s)"
  unfolding puppeteer_run_def by (induction ops arbitrary: s) (simp_all add: wf_puppeteer_step)

lemma wf_Puppeteer_new: "puppeteer_wf Puppeteer_new"
  by (simp add: puppeteer_wf_def Puppeteer_new_def ids_def)

text \<open>
  C5, as amended. In every state \<open>s\<close> that launches, crash notifications, tasks and
  the events of the pools reach from a new dispatcher, a crash notification for id \<open>x\<close> whose replacement launches
  without error assigns the next id \<open>index s\<close>, which no entry of the rotation has (all
  are smaller) and advances \<open>index\<close> by one. If \<open>x\<close> is in the rotation, the rotation
  loses the entry with id \<open>x\<close> and gains the new instance at its end: its length is
  unchanged and \<open>x\<close> is no longer in it. If \<open>x\<close> is not in the rotation, nothing is
  removed and the new instance is still appended.
\<close>

theorem crash_replaces_instance:
  assumes "s = puppeteer_run ops Puppeteer_new" and "puppeteer_launch w = None"
  shows "index (browserCrash x w s) = Suc (index s) \<and>
         list_all (\<lambda>n. n < index s) (ids s) \<and>
         (if x \<in> set (ids s)
          then ids (browserCrash x w s) = remove1 x (ids s) @ [index s] \<and>
               x \<notin> set (ids (browserCrash x w s)) \<and>
               length (ids (browserCrash x w s)) = length (ids s)
          else ids (browserCrash x w s) = ids s @ [index s])"
proof -
  from assms(1) have wf: "puppeteer_wf s"
    by (simp add: wf_puppeteer_run wf_Puppeteer_new)
  define s1 where "s1 = (case findIndex (\<lambda>item. render_id item = x) (list s) of
          None \<Rightarrow> s | Some n \<Rightarrow> s\<lparr>list := splice1 n (list s)\<rparr>)"
  from crash_removed[where x=x and s=s] have s1: "ids s1 = remove1 x (ids s)" "index s1 = index s"
    by (simp_all add: s1_def)
  have c: "browserCrash x w s = snd (launch w s1)" by (simp add: browserCrash_def s1_def)
  from launch_ok[OF assms(2), where s=s1] s1
  have r: "ids (browserCrash x w s) = remove1 x (ids s) @ [index s]"
    and i: "index (browserCrash x w s) = Suc (index s)" by (simp_all add: c)
  from wf have lt: "\<forall>n \<in> set (ids s). n < index s" and d: "distinct (ids s)"
    by (simp_all add: puppeteer_wf_def)
  show ?thesis
  proof (cases "x \<in> set (ids s)")
    case True
    with lt have "x \<noteq> index s" by auto
    from True have "0 < length (ids s)" by (rule length_pos_if_in_set)
    with True \<open>x \<noteq> index s\<close> d r i lt show ?thesis
      by (auto simp: list_all_iff length_remove1)
  next
    case False
    with r i lt show ?thesis by (simp add: list_all_iff remove1_idem)
  qed
qed

theorem crash_replaces_instance_witness:
  "ids (puppeteer_run launch_task_launch Puppeteer_new) = [1, 0, 2] \<and>
   index (puppeteer_run launch_task_launch Puppeteer_new) = 3 \<and>
   ids (browserCrash 0 w_ok (puppeteer_run launch_task_launch Puppeteer_new)) = [1, 2, 3] \<and>
   ids (browserCrash 7 w_ok (puppeteer_run launch_task_launch Puppeteer_new)) = [1, 0, 2, 3]"
proof -
  have l: "puppeteer_launch w_ok = None" by (simp add: w_ok_def)
  have e: "ids Puppeteer_new = [] \<and> index Puppeteer_new = 0"
    by (simp add: ids_def Puppeteer_new_def)
  have i: "ids (puppeteer_run launch_task_launch Puppeteer_new) = [1, 0, 2] \<and>
     index (puppeteer_run launch_task_launch Puppeteer_new) = 3"
    by (simp add: launch_task_launch_def puppeteer_run_def ids_task index_task
          ids_pool_event index_pool_event launch_ok[OF l] e)
  from crash_replaces_instance[OF refl l, where x=0 and ops=launch_task_launch]
       crash_replaces_instance[OF refl l, where x=7 and ops=launch_task_launch] i
  show ?thesis by simp
qed

text \<open>
  C5, as the claim states it, fails: after instance 0 has crashed and been replaced, the
  rotation holds instance 1 alone; a second notification for id 0 removes nothing and
  launches instance 2, so the rotation grows.
\<close>

theorem crash_absent_id_counterexample:
  "ids after_crash = [1] \<and> ids (browserCrash 0 w_ok after_crash) = [1, 2]"
  by (simp add: after_crash_def puppeteer_run_def Puppeteer_new_def browserCrash_def launch_def
        Render_init_def w_ok_def ids_def splice1_def)

section \<open>Rendering: retry, options, waits, element resolution and slices\<close>

lemma r0_eq:
  "r0 = \<lparr>render_id = 0, render_list = [],
         pagePool = \<lparr>pool = [(''a'', \<lparr>page = 1, status = Idle, lastUsed = 0, timer = None\<rparr>)],
                     maxSize = 10, idleTimeout = 60000, timers = [], next_timer = 0\<rparr>,
         continuations = []\<rparr>"
  by (simp add: r0_def first_page_def step_defs pool_defs)

lemmas capture_defs = capture_def render_options_def elementHandle_def lookup_or_def
  Render_setViewport_def truthy_boolean_def truthy_number_def or_number_def or_default_def
  truthy_multiPage_def Math_round_def

lemmas newPage_defs = newPage_def set_headers_def open_file_def startsWith_def optional_wait_def
  catch_ignore_def

lemma screenshot_first_rejected:
  assumes "fst (task env1 uuid1 options s) = Rejected e"
  shows "Puppeteer_screenshot env1 uuid1 env2 uuid2 options s = task env1 uuid1 options s"
  using assms by (cases "task env1 uuid1 options s") (simp add: Puppeteer_screenshot_def)

text \<open>
  C1: the code at the failing input. With two instances in the rotation, a task whose
  first dispatch rejects (the navigation fails) and whose second dispatch would resolve
  with a \<open>Buffer\<close>: \<open>screenshot\<close> rejects with the error of the first dispatch, and the
  rotation has advanced once only, so no second dispatch was made.
\<close>

theorem first_rejection_not_retried:
  "fst (Puppeteer_screenshot env_fail ''u1'' env_ok ''u2'' data0 two_browsers)
     = Rejected (Error ''net::ERR_FAILED'') \<and>
   ids (snd (Puppeteer_screenshot env_fail ''u1'' env_ok ''u2'' data0 two_browsers)) = [1, 0] \<and>
   fst (task env_ok ''u2'' data0
          (snd (Puppeteer_screenshot env_fail ''u1'' env_ok ''u2'' data0 two_browsers)))
     = Resolved (Image (Buffer [1]))"
  by (simp add: Puppeteer_screenshot_def task_def two_browsers_def puppeteer_run_def
        Puppeteer_new_def launch_def Render_init_def w_ok_def render_def ids_def
        env_fail_def env_ok_def data0_def pool_defs capture_defs newPage_defs)


lemma ceiling_9_4: "\<lceil>9 / 4 :: rat\<rceil> = 3"
  by (simp add: ceiling_eq_iff)

lemma slice_count_4500_2000: "slice_count 4500 2000 = 3"
  by (simp add: slice_count_def Number_div_def binary64_9_4 ceiling_9_4)

lemma upt_3: "[0..<3] = [0, Suc 0, Suc (Suc 0)]"
  by (simp add: upt_rec)

lemma slice_clips_4500_2000:
  "slice_clips w 4500 2000 = [Clip 0 0 w 2000, Clip 0 1900 w 2100, Clip 0 3900 w 600]"
  by (simp add: slice_clips_def slice_count_4500_2000 upt_3 slice_clip_def Number_mul_def
        Number_sub_def Number_add_def binary64_numeral binary64_0)

text \<open>
  C6: the code at the failing input. A paginated capture of type \<open>png\<close> with quality
  90: each of the three capture calls receives type \<open>png\<close> and quality 90, not an
  absent quality. A paginated capture that sets neither type, quality nor encoding: each
  call receives none of them, not \<open>jpeg\<close>, 90 and \<open>binary\<close>.
\<close>

theorem paginated_capture_gets_raw_data:
  "map (\<lambda>c. (type (call_options c), quality (call_options c)))
       (snd (snd (render env_ok ''e1'' data_png_pages r0)))
     = [(Some png, Some 90), (Some png, Some 90), (Some png, Some 90)] \<and>
   map (\<lambda>c. (type (call_options c), quality (call_options c), encoding (call_options c)))
       (snd (snd (render env_ok ''e1'' data_pages r0)))
     = [(None, None, None), (None, None, None), (None, None, None)]"
  by (simp add: render_def r0_eq env_ok_def data_png_pages_def data_pages_def data0_def
        pool_defs capture_defs newPage_defs slice_height_def slice_clips_4500_2000
        ScreenshotOptions.defs)


lemma render_options_png:
  "type data = Some png \<Longrightarrow> quality (render_options data) = None"
  by (simp add: render_options_def Let_def truthy_number_def or_default_def split: option.splits)

lemma render_options_defaults:
  "type (render_options data0) = Some jpeg \<and> quality (render_options data0) = Some 90 \<and>
   encoding (render_options data0) = Some binary"
  by (simp add: render_options_def data0_def Let_def truthy_number_def or_default_def)

lemma capture_not_paginated:
  assumes "\<not> truthy_multiPage (multiPage data)" "capture env data = (Inr result, calls)"
  shows "\<exists>img. result = Image img \<and> calls = [PageShot (single_options data)] \<and>
               page_screenshot env (single_options data) = Inr img"
  using assms
  by (auto simp: capture_def single_options_def Let_def split: if_splits sum.splits option.splits)

text \<open>
  C10. A task whose \<open>multiPage\<close> is the number 0: when \<open>render\<close> resolves, it has made
  one capture call and no other, a \<open>page.screenshot\<close> with the options object of the
  task (none of the per-slice \<open>element.screenshot\<close> calls of the paginated branch), and
  its result is the one image which that call returned, not an array.
\<close>

theorem multiPage_zero_single_image:
  assumes "multiPage data = Some (MultiPage_number 0)"
    and "render env echo data r = (Resolved result, r', calls)"
  shows "\<exists>img. result = Image img \<and> calls = [PageShot (single_options data)] \<and>
               page_screenshot env (single_options data) = Inr img"
proof -
  from assms(1) have nt: "\<not> truthy_multiPage (multiPage data)"
    by (simp add: truthy_multiPage_def)
  from assms(2) have "capture env data = (Inr result, calls)"
    by (auto simp: render_def Let_def split: prod.splits promise.splits sum.splits)
  from capture_not_paginated[OF nt this] show ?thesis .
qed

theorem multiPage_zero_single_image_witness:
  "multiPage data_zero = Some (MultiPage_number 0) \<and>
   fst (render env_ok ''e1'' data_zero r0) = Resolved (Image (Buffer [1])) \<and>
   snd (snd (render env_ok ''e1'' data_zero r0)) = [PageShot (single_options data_zero)] \<and>
   page_screenshot env_ok (single_options data_zero) = Inr (Buffer [1])"
proof -
  have h1: "multiPage data_zero = Some (MultiPage_number 0)"
    by (simp add: data_zero_def)
  have f: "fst (render env_ok ''e1'' data_zero r0) = Resolved (Image (Buffer [1]))"
    by (simp add: render_def r0_eq env_ok_def data_zero_def data0_def
          pool_defs capture_defs newPage_defs)
  then have h2: "render env_ok ''e1'' data_zero r0 =
      (Resolved (Image (Buffer [1])), fst (snd (render env_ok ''e1'' data_zero r0)),
       snd (snd (render env_ok ''e1'' data_zero r0)))"
    by (metis prod.collapse)
  from multiPage_zero_single_image[OF h1 h2] h1 f show ?thesis by auto
qed

lemma wait_each_None: "wait_each w xs = None"
  by (induction xs) (simp_all add: catch_ignore_def split: option.splits)

lemma optional_wait_None: "optional_wait w v = None"
  by (simp add: optional_wait_def wait_each_None split: option.splits StringOrList.splits)

lemma newPage_strip_waits: "newPage env (strip_waits data) s = newPage env data s"
proof -
  have f: "set_headers env (strip_waits data) = set_headers env data"
    "open_file env (strip_waits data) = open_file env data"
    "setRequestInterception (strip_waits data) = setRequestInterception data"
    by (simp_all add: strip_waits_def set_headers_def open_file_def)
  show ?thesis
    unfolding newPage_def f optional_wait_None ..
qed

lemma truncate_strip_waits:
  "ScreenshotOptions.truncate (strip_waits data) = ScreenshotOptions.truncate data"
  by (simp add: strip_waits_def ScreenshotOptions.defs)

lemma capture_slices_strip_waits:
  "capture_slices env body (strip_waits data) cs = capture_slices env body data cs"
proof (induction cs arbitrary: data)
  case Nil
  show ?case by simp
next
  case (Cons c cs)
  have e: "(strip_waits data)\<lparr>clip := Some c\<rparr> = strip_waits (data\<lparr>clip := Some c\<rparr>)"
    by (simp add: strip_waits_def)
  show ?case
    unfolding capture_slices.simps Let_def e truncate_strip_waits Cons.IH ..
qed

lemma capture_strip_waits: "capture env (strip_waits data) = capture env data"
proof -
  have f: "render_options (strip_waits data) = render_options data"
    "fullPage (strip_waits data) = fullPage data"
    "setViewport (strip_waits data) = setViewport data"
    "selector (strip_waits data) = selector data"
    "multiPage (strip_waits data) = multiPage data"
    by (simp_all add: strip_waits_def render_options_def)
  show ?thesis
    unfolding capture_def f capture_slices_strip_waits ..
qed

text \<open>
  C7. Whatever the driver answers to the waits of \<open>waitForSelector\<close>, \<open>waitForFunction\<close>,
  \<open>waitForRequest\<close> and \<open>waitForResponse\<close> (each a single value or a list; resolved,
  rejected or timed out), \<open>render\<close> ends as it does for the same task without these
  four fields: with the same result or error, the same pool and the same capture calls.
  No rejection of an optional wait reaches the caller.
\<close>

theorem optional_waits_swallowed:
  "render env echo data r = render env echo (strip_waits data) r"
  unfolding render_def newPage_strip_waits capture_strip_waits ..

theorem optional_waits_swallowed_witness:
  "fst (render env_timeouts ''e1'' data_waits r0) = Resolved (Image (Buffer [1]))"
proof -
  have "fst (render env_timeouts ''e1'' (strip_waits data_waits) r0)
          = Resolved (Image (Buffer [1]))"
    by (simp add: render_def r0_eq env_timeouts_def env_ok_def data_waits_def data0_def
          strip_waits_def pool_defs capture_defs newPage_defs)
  with optional_waits_swallowed[of env_timeouts "''e1''" data_waits r0] show ?thesis by simp
qed

text \<open>
  C8, as amended. The caller's selector, when it is a non-empty string, is tried first;
  a selector lookup that throws is treated as one that finds nothing. When the selector
  gives no element, the result is that of the chain \<open>#container\<close>, then \<open>body\<close>, in
  which an error thrown by a lookup is not treated as "not found": it reaches the caller.
\<close>

theorem elementHandle_chain:
  "elementHandle env name =
     (case selector_found env name of
        Some el \<Rightarrow> Inr (Some el)
      | None \<Rightarrow> lookup_or (page_query env ''#container'') (page_query env ''body''))"
  by (auto simp: elementHandle_def selector_found_def lookup_or_def
           split: option.splits sum.splits)

lemma elementHandle_matches_spec:
  assumes "page_query env ''#container'' = Inr c" "page_query env ''body'' = Inr b"
  shows "elementHandle env name = spec_elementHandle env name"
  using assms
  by (auto simp: elementHandle_def spec_elementHandle_def candidates_def lookup_or_def
           split: option.splits sum.splits)

text \<open>
  C8, as the claim states it, fails: on a page where every lookup throws, the
  resolution rejects where the specification's chain would find nothing.
\<close>

theorem elementHandle_counterexample:
  "elementHandle env_closed (Some ''#app'') = Inl (Error ''detached'') \<and>
   spec_elementHandle env_closed (Some ''#app'') = Inr None"
  by (simp add: elementHandle_def spec_elementHandle_def candidates_def lookup_or_def
        env_closed_def env_ok_def)

lemma capture_slices_clips:
  assumes "fst (capture_slices env body data cs) = Inr imgs"
  shows "map (\<lambda>c. clip (call_options c)) (snd (capture_slices env body data cs)) = map Some cs \<and>
         list_all (\<lambda>c. \<not> is_PageShot c) (snd (capture_slices env body data cs)) \<and>
         length imgs = length cs"
  using assms
proof (induction cs arbitrary: data imgs)
  case Nil
  then show ?case by simp
next
  case (Cons c cs)
  let ?data' = "data\<lparr>clip := Some c\<rparr>"
  from Cons.prems obtain img where
    shot: "element_screenshot env body (ScreenshotOptions.truncate ?data') = Inr img"
    by (auto simp: Let_def split: sum.splits prod.splits)
  with Cons.prems obtain rest where
    rest: "fst (capture_slices env body ?data' cs) = Inr rest" and imgs: "imgs = img # rest"
    by (auto simp: Let_def split: sum.splits prod.splits)
  from Cons.IH[OF rest] shot rest imgs show ?case
    by (auto simp: Let_def ScreenshotOptions.defs split: sum.splits prod.splits)
qed

lemma paginated_render_clips:
  "map (\<lambda>c. clip (call_options c)) (snd (snd (render env_ok ''e1'' data_pages r0)))
     = map Some (slice_clips 1200 4500 2000)"
  by (simp add: render_def r0_eq env_ok_def data_pages_def data0_def
        pool_defs capture_defs newPage_defs slice_height_def slice_clips_4500_2000
        ScreenshotOptions.defs)

lemma length_slice_clips:
  "length (slice_clips boxWidth boxHeight height) = nat (slice_count boxHeight height)"
  by (simp add: slice_clips_def)

lemma nth_slice_clips:
  "i < length (slice_clips boxWidth boxHeight height) \<Longrightarrow>
   slice_clips boxWidth boxHeight height ! i = slice_clip boxWidth boxHeight height i"
  by (simp add: slice_clips_def)

text \<open>
  C2, as amended. For a box height of 4500 and a slice height of 2000 the slice count is
  3 and the clips are \<open>{y: 0, height: 2000}\<close>, \<open>{y: 1900, height: 2100}\<close> and
  \<open>{y: 3900, height: 600}\<close>, and these are the clips that the capture calls of \<open>render\<close>
  receive for such a box. In general, in the arithmetic of doubles: for a slice height
  other than 0 the slice count is the ceiling of the (rounded) quotient of box height by
  slice height, and for a slice height of 0 it is 0; there are as many clips as the
  count says; slice 0, when there is one, starts at 0 with the smaller of the slice
  height and the box height; every slice \<open>i > 0\<close> starts 100 above \<open>i\<close> times the slice
  height, and is 100 higher than the smaller of the slice height and what is left of the
  box below \<open>i\<close> times the slice height.
\<close>

theorem paginated_slices:
  "slice_count 4500 2000 = 3 \<and>
   slice_clips boxWidth 4500 2000 =
     [Clip 0 0 boxWidth 2000, Clip 0 1900 boxWidth 2100, Clip 0 3900 boxWidth 600] \<and>
   map (\<lambda>c. clip (call_options c)) (snd (snd (render env_ok ''e1'' data_pages r0))) =
     [Some (Clip 0 0 1200 2000), Some (Clip 0 1900 1200 2100), Some (Clip 0 3900 1200 600)] \<and>
   (height \<noteq> 0 \<longrightarrow> slice_count boxHeight height = \<lceil>Number_div boxHeight height\<rceil>) \<and>
   slice_count boxHeight 0 = 0 \<and>
   length (slice_clips boxWidth boxHeight height) = nat (slice_count boxHeight height) \<and>
   (0 < length (slice_clips boxWidth boxHeight height) \<longrightarrow>
      slice_clips boxWidth boxHeight height ! 0 =
        Clip 0 0 boxWidth (min height (binary64 boxHeight))) \<and>
   (0 < i \<and> i < length (slice_clips boxWidth boxHeight height) \<longrightarrow>
      slice_clips boxWidth boxHeight height ! i =
        Clip 0 (Number_sub (Number_mul (of_nat i) height) 100) boxWidth
          (Number_add (min height (Number_sub boxHeight (Number_mul (of_nat i) height))) 100))"
proof -
  have a: "height \<noteq> 0 \<longrightarrow> slice_count boxHeight height = \<lceil>Number_div boxHeight height\<rceil>"
    by (simp add: slice_count_def)
  have b: "slice_count boxHeight 0 = 0" by (simp add: slice_count_def)
  have c: "0 < length (slice_clips boxWidth boxHeight height) \<longrightarrow>
      slice_clips boxWidth boxHeight height ! 0 =
        Clip 0 0 boxWidth (min height (binary64 boxHeight))"
    by (simp add: nth_slice_clips slice_clip_def Number_mul_def Number_sub_def binary64_0)
  have d: "0 < i \<and> i < length (slice_clips boxWidth boxHeight height) \<longrightarrow>
      slice_clips boxWidth boxHeight height ! i =
        Clip 0 (Number_sub (Number_mul (of_nat i) height) 100) boxWidth
          (Number_add (min height (Number_sub boxHeight (Number_mul (of_nat i) height))) 100)"
    by (simp add: nth_slice_clips slice_clip_def Let_def)
  have e: "map (\<lambda>c. clip (call_options c)) (snd (snd (render env_ok ''e1'' data_pages r0))) =
     [Some (Clip 0 0 1200 2000), Some (Clip 0 1900 1200 2100), Some (Clip 0 3900 1200 600)]"
    by (simp add: paginated_render_clips slice_clips_4500_2000)
  from a b c d e show ?thesis
    by (simp only: slice_count_4500_2000 slice_clips_4500_2000 length_slice_clips simp_thms)
qed

theorem paginated_slices_witness:
  "(2000::rat) \<noteq> 0 \<and> slice_count 4500 2000 = \<lceil>Number_div 4500 2000\<rceil> \<and>
   length (slice_clips 1200 4500 2000) = 3 \<and>
   0 < length (slice_clips 1200 4500 2000) \<and>
   slice_clips 1200 4500 2000 ! 0 = Clip 0 0 1200 2000 \<and>
   (0::nat) < 2 \<and> 2 < length (slice_clips 1200 4500 2000) \<and>
   slice_clips 1200 4500 2000 ! 2 = Clip 0 3900 1200 600"
proof -
  have l: "length (slice_clips 1200 4500 2000) = 3" by (simp add: slice_clips_4500_2000)
  have n: "slice_clips 1200 4500 2000 ! 2 = Clip 0 3900 1200 600"
    by (simp add: slice_clips_4500_2000)
  have z: "slice_clips 1200 4500 2000 ! 0 = Clip 0 0 1200 2000"
    by (simp add: slice_clips_4500_2000)
  from paginated_slices[where boxWidth=1200 and boxHeight=4500 and height=2000 and i=2] l n z
  show ?thesis by simp
qed

text \<open>
  C2, as the claim states it, fails: the third clip of a box of height 4500 cut at 2000
  is 600 high, not 700.
\<close>

theorem paginated_slices_counterexample:
  "clip_height (slice_clips 1200 4500 2000 ! 2) = 600 \<and>
   clip_height (slice_clips 1200 4500 2000 ! 2) \<noteq> 700"
  by (simp add: slice_clips_4500_2000)

section \<open>Dedicated pages and the pool\<close>

lemma find_update_first:
  assumes "list_all (\<lambda>x. \<not> P x) xs" "P (k, v)"
  shows "find P (AList.update k v xs) = Some (k, v)"
  using assms by (induction xs) auto

lemma newPage_intercept:
  assumes "setRequestInterception data" "browser_newPage env = Inr p"
    and "newPage env data s = (Resolved q, s1)"
  shows "q = p \<and>
         s1 = s\<lparr>pool := AList.update (generateId env)
                  \<lparr>page = p, status = Busy, lastUsed = Date_now env, timer = None\<rparr> (pool s)\<rparr>"
proof -
  have c: "createPage (Inr p) (generateId env) (Date_now env) s =
      (Inr p, s\<lparr>pool := AList.update (generateId env)
                  \<lparr>page = p, status = Busy, lastUsed = Date_now env, timer = None\<rparr> (pool s)\<rparr>)"
    by (simp add: createPage_def createNewPage_def mark_busy_def update_conv')
  from assms(3) show ?thesis
    unfolding newPage_def using assms(1,2) c
    by (auto split: option.splits)
qed

lemma release_created:
  assumes "\<forall>h k. map_of (timers s) h = Some k \<longrightarrow> h < next_timer s"
    and "list_all (\<lambda>(k, info). page info \<noteq> p) (pool s)"
  shows "releasePage p t
           (s\<lparr>pool := AList.update i \<lparr>page = p, status = Busy, lastUsed = now, timer = None\<rparr> (pool s)\<rparr>)
         = s\<lparr>pool := AList.update i
                 \<lparr>page = p, status = Idle, lastUsed = t, timer = Some (next_timer s)\<rparr> (pool s),
              timers := timers s @ [(next_timer s, i)],
              next_timer := Suc (next_timer s)\<rparr>"
proof -
  have np: "list_all (\<lambda>x. \<not> (case x of (k, info) \<Rightarrow> page info = p)) (pool s)"
    using assms(2) by (simp add: list_all_iff case_prod_beta)
  have f: "find (\<lambda>(k, info). page info = p)
            (AList.update i \<lparr>page = p, status = Busy, lastUsed = now, timer = None\<rparr> (pool s))
          = Some (i, \<lparr>page = p, status = Busy, lastUsed = now, timer = None\<rparr>)"
    by (rule find_update_first[OF np]) simp
  show ?thesis
    by (simp add: releasePage_def f startIdleTimer_def update_conv' Let_def)
qed

lemma released_slot_after:
  assumes "\<forall>h k. map_of (timers s) h = Some k \<longrightarrow> h < next_timer s"
    and "list_all (\<lambda>(k, info). page info \<noteq> p) (pool s)"
  shows "released_slot
           (s\<lparr>pool := AList.update i
                 \<lparr>page = p, status = Idle, lastUsed = t, timer = Some (next_timer s)\<rparr> (pool s),
              timers := timers s @ [(next_timer s, i)],
              next_timer := Suc (next_timer s)\<rparr>) p"
proof -
  have np: "list_all (\<lambda>x. \<not> (case x of (k, info) \<Rightarrow> page info = p)) (pool s)"
    using assms(2) by (simp add: list_all_iff case_prod_beta)
  have f: "find (\<lambda>(k, info). page info = p)
            (AList.update i \<lparr>page = p, status = Idle, lastUsed = t, timer = Some (next_timer s)\<rparr> (pool s))
          = Some (i, \<lparr>page = p, status = Idle, lastUsed = t, timer = Some (next_timer s)\<rparr>)"
    by (rule find_update_first[OF np]) simp
  have "map_of (timers s) (next_timer s) = None"
    using assms(1) by (cases "map_of (timers s) (next_timer s)") auto
  then show ?thesis by (simp add: released_slot_def f map_add_def)
qed

lemma acquire_after_release:
  assumes "list_all (\<lambda>(k, info). status info = Busy) (pool s)"
  shows "fst (acquirePage np1 i1 now1
           (s\<lparr>pool := AList.update i
                 \<lparr>page = p, status = Idle, lastUsed = t, timer = Some h\<rparr> (pool s),
              timers := ts, next_timer := n\<rparr>)) = Resolved p"
proof -
  have ni: "list_all (\<lambda>x. \<not> (case x of (k, info) \<Rightarrow> status info = Idle)) (pool s)"
    using assms by (auto simp: list_all_iff)
  have f: "find (\<lambda>(k, info). status info = Idle)
            (AList.update i \<lparr>page = p, status = Idle, lastUsed = t, timer = Some h\<rparr> (pool s))
          = Some (i, \<lparr>page = p, status = Idle, lastUsed = t, timer = Some h\<rparr>)"
    by (rule find_update_first[OF ni]) simp
  show ?thesis by (simp add: acquirePage_def take_idle_def f Let_def)
qed

text \<open>
  C3, as amended. For a task that installs request interception, on a pool reached by
  the steps of a pool from a new one, the page that \<open>createPage\<close> makes for it is a new page of the browser
  (none of the pool's slots holds it), and when \<open>render\<close> resolves that page has been
  released into the pool like any other: its slot is idle with its timeout armed. A
  later \<open>acquirePage\<close> hands the same page out when every other slot is busy.
\<close>

theorem dedicated_page_released:
  assumes "setRequestInterception data"
    and "pagePool r = fst (pool_run ops PagePool_new)"
    and "browser_newPage env = Inr p"
    and "list_all (\<lambda>q. q \<noteq> p) (pages (pagePool r))"
    and "render env echo data r = (Resolved result, r', calls)"
  shows "released_slot (pagePool r') p \<and>
         (list_all (\<lambda>(k, info). status info = Busy) (pool (pagePool r)) \<longrightarrow>
          fst (acquirePage np1 i1 now1 (pagePool r')) = Resolved p)"
proof -
  let ?s = "pagePool r"
  from assms(2) have "timers_fresh ?s" by (simp add: fresh_pool_run fresh_PagePool_new)
  then have lt: "\<forall>h k. map_of (timers ?s) h = Some k \<longrightarrow> h < next_timer ?s"
    by (auto dest: fresh_lt)
  from assms(4) have fresh: "list_all (\<lambda>(k, info). page info \<noteq> p) (pool ?s)"
    by (simp add: pages_def list_all_iff case_prod_beta)
  from assms(5) obtain q s1 where np: "newPage env data ?s = (Resolved q, s1)"
    and r': "pagePool r' = releasePage q (Date_now env) s1"
    by (auto simp: render_def Let_def split: prod.splits promise.splits sum.splits)
  from newPage_intercept[OF assms(1,3) np] have q: "q = p"
    and s1: "s1 = ?s\<lparr>pool := AList.update (generateId env)
                  \<lparr>page = p, status = Busy, lastUsed = Date_now env, timer = None\<rparr> (pool ?s)\<rparr>"
    by simp_all
  have e: "pagePool r' = ?s\<lparr>pool := AList.update (generateId env)
                 \<lparr>page = p, status = Idle, lastUsed = Date_now env, timer = Some (next_timer ?s)\<rparr> (pool ?s),
              timers := timers ?s @ [(next_timer ?s, generateId env)],
              next_timer := Suc (next_timer ?s)\<rparr>"
    unfolding r' q s1 by (rule release_created[OF lt fresh])
  show ?thesis
    unfolding e using released_slot_after[OF lt fresh] acquire_after_release by blast
qed

theorem dedicated_page_released_witness:
  "setRequestInterception data_intercept \<and> browser_newPage env_ok = Inr 2 \<and>
   pages (pagePool r_busy) = [1] \<and>
   fst (render env_ok ''e1'' data_intercept r_busy) = Resolved (Image (Buffer [1])) \<and>
   released_slot (pagePool (fst (snd (render env_ok ''e1'' data_intercept r_busy)))) 2 \<and>
   fst (acquirePage (Inr 3) ''c'' 9
          (pagePool (fst (snd (render env_ok ''e1'' data_intercept r_busy))))) = Resolved 2"
proof -
  have h1: "setRequestInterception data_intercept" by (simp add: data_intercept_def data0_def)
  have h2: "pagePool r_busy =
      fst (pool_run [NewPage_settles First (Inr 1) ''a'' 0, AcquirePage_call 1] PagePool_new)"
    by (simp add: r_busy_def r0_eq step_defs pool_defs)
  have h3: "browser_newPage env_ok = Inr 2" by (simp add: env_ok_def)
  have pb: "pool (pagePool r_busy) = [(''a'', \<lparr>page = 1, status = Busy, lastUsed = 1, timer = None\<rparr>)]"
    by (simp add: r_busy_def r0_eq pool_defs)
  have h4: "list_all (\<lambda>q. q \<noteq> 2) (pages (pagePool r_busy))" by (simp add: pages_def pb)
  have f: "fst (render env_ok ''e1'' data_intercept r_busy) = Resolved (Image (Buffer [1]))"
    by (simp add: render_def r_busy_def r0_eq env_ok_def data_intercept_def data0_def
          pool_defs capture_defs newPage_defs)
  then have h5: "render env_ok ''e1'' data_intercept r_busy =
      (Resolved (Image (Buffer [1])), fst (snd (render env_ok ''e1'' data_intercept r_busy)),
       snd (snd (render env_ok ''e1'' data_intercept r_busy)))"
    by (metis prod.collapse)
  have b: "list_all (\<lambda>(k, info). status info = Busy) (pool (pagePool r_busy))" by (simp add: pb)
  from dedicated_page_released[OF h1 h2 h3 h4 h5, of "Inr 3" "''c''" 9] b h1 h3 f pb
  show ?thesis by (simp add: pages_def)
qed

text \<open>
  C3, as the claim states it, fails: while another task holds the pool's first page, a
  task with request interception gets page 2 from \<open>createPage\<close> and succeeds; its page is
  then an idle slot of the pool, and the next \<open>acquirePage\<close> hands page 2 out.
\<close>

theorem dedicated_page_counterexample:
  "fst (newPage env_ok data_intercept (pagePool r_busy)) = Resolved 2 \<and>
   fst (render env_ok ''e1'' data_intercept r_busy) = Resolved (Image (Buffer [1])) \<and>
   map (\<lambda>(k, info). (k, page info, status info))
       (pool (pagePool (fst (snd (render env_ok ''e1'' data_intercept r_busy)))))
     = [(''a'', 1, Busy), (''b'', 2, Idle)] \<and>
   fst (acquirePage (Inr 3) ''c'' 9
          (pagePool (fst (snd (render env_ok ''e1'' data_intercept r_busy))))) = Resolved 2"
  by (simp add: render_def r_busy_def r0_eq env_ok_def data_intercept_def data0_def
        pool_defs capture_defs newPage_defs)

end
